theory Spec2Isabelle
  imports Complex_Main "HOL-Library.Word" "HOL-Library.AList"
begin

section \<open>JavaScript strings\<close>

text \<open>
  A JavaScript string is a sequence of UTF-16 code units; \<open>length\<close>, \<open>indexOf\<close>,
  \<open>substring\<close> and \<open>trim\<close> all work on code units. String literals of the source
  are written \<open>js ''...''\<close>; a line feed is the code unit \<open>0x0A\<close>.
\<close>

type_synonym code_unit = "16 word"
type_synonym jsstring = "code_unit list"

definition js :: "string \<Rightarrow> jsstring" where
  "js s = map (\<lambda>c. of_char c) s"

definition newline :: code_unit where
  "newline = 0x000A"

definition hyphen :: code_unit where
  "hyphen = 0x002D"

definition backtick :: code_unit where
  "backtick = 0x0060"

text \<open>
  The code units that \<open>String.prototype.trim\<close> strips and that the regular
  expression class \<open>\s\<close> matches: ECMAScript's WhiteSpace and LineTerminator.
\<close>

definition isWhiteSpace :: "code_unit \<Rightarrow> bool" where
  "isWhiteSpace c \<longleftrightarrow>
     c = 0x0009 \<or> c = 0x000A \<or> c = 0x000B \<or> c = 0x000C \<or> c = 0x000D \<or> c = 0x0020 \<or>
     c = 0x00A0 \<or> c = 0x1680 \<or> (0x2000 \<le> c \<and> c \<le> 0x200A) \<or> c = 0x2028 \<or>
     c = 0x2029 \<or> c = 0x202F \<or> c = 0x205F \<or> c = 0x3000 \<or> c = 0xFEFF"

text \<open>The regular expression class \<open>\w\<close>: \<open>[A-Za-z0-9_]\<close>.\<close>

definition isWordChar :: "code_unit \<Rightarrow> bool" where
  "isWordChar c \<longleftrightarrow>
     (0x0041 \<le> c \<and> c \<le> 0x005A) \<or> (0x0061 \<le> c \<and> c \<le> 0x007A) \<or>
     (0x0030 \<le> c \<and> c \<le> 0x0039) \<or> c = 0x005F"

definition trimStart :: "jsstring \<Rightarrow> jsstring" where
  "trimStart s = dropWhile isWhiteSpace s"

definition trimEnd :: "jsstring \<Rightarrow> jsstring" where
  "trimEnd s = rev (dropWhile isWhiteSpace (rev s))"

definition trim :: "jsstring \<Rightarrow> jsstring" where
  "trim s = trimEnd (trimStart s)"

text \<open>\<open>s.indexOf(c)\<close> for a one-unit search string: the first position, or \<open>-1\<close>.\<close>

fun indexOf :: "jsstring \<Rightarrow> code_unit \<Rightarrow> int" where
  "indexOf [] c = -1"
| "indexOf (x # xs) c =
     (if x = c then 0
      else (let i = indexOf xs c in if i = -1 then -1 else i + 1))"

text \<open>
  \<open>s.substring(a, b)\<close>: both indices are clamped to \<open>[0, length]\<close> and swapped when
  the first is the larger; \<open>s.substring(a)\<close> runs to the end of the string.
\<close>

definition substring :: "jsstring \<Rightarrow> int \<Rightarrow> int \<Rightarrow> jsstring" where
  "substring s a b =
     (let n = int (length s);
          a' = max 0 (min a n);
          b' = max 0 (min b n);
          lo = min a' b';
          hi = max a' b'
      in take (nat (hi - lo)) (drop (nat lo) s))"

definition substringFrom :: "jsstring \<Rightarrow> int \<Rightarrow> jsstring" where
  "substringFrom s a = substring s a (int (length s))"

definition startsWith :: "jsstring \<Rightarrow> jsstring \<Rightarrow> bool" where
  "startsWith s p \<longleftrightarrow> take (length p) s = p"

section \<open>Errors, responses and callbacks\<close>

text \<open>
  A thrown value is either a value raised outside this module (by the transport, by
  \<open>JSON.parse\<close> or by the engine), identified by a tag and carrying its \<open>message\<close>
  when it is an instance of \<open>Error\<close>, or an object built by \<open>new Error(msg)\<close>
  in this module. Two thrown values are the identical JavaScript value only if they are
  equal here; a \<open>NewError\<close> is never identical to a value raised outside.
\<close>

datatype js_exn =
    Thrown nat "jsstring option"
  | NewError jsstring

fun instanceofError :: "js_exn \<Rightarrow> bool" where
  "instanceofError (Thrown i m) = (m \<noteq> None)"
| "instanceofError (NewError m) = True"

fun message :: "js_exn \<Rightarrow> jsstring" where
  "message (Thrown i m) = (case m of None \<Rightarrow> [] | Some t \<Rightarrow> t)"
| "message (NewError m) = m"

text \<open>
  The part of \<open>GenerateContentResponse\<close> the module reads: \<open>text\<close> (which may be
  undefined) and \<open>candidates?.[0]?.groundingMetadata?.groundingChunks[].web.{uri,title}\<close>,
  every level of which may be missing. A field whose name is taken (by a command of the
  proof language or by another record) carries the name of its record as a prefix.
\<close>

record webRef =
  web_uri :: "jsstring option"
  web_title :: "jsstring option"

record groundingChunk =
  web :: "webRef option"

record groundingMetadata =
  groundingChunks :: "groundingChunk list option"

record candidate =
  cand_groundingMetadata :: "groundingMetadata option"

record response =
  resp_text :: "jsstring option"
  candidates :: "candidate list option"

text \<open>
  A streaming call delivers finitely many chunks and then either completes
  (\<open>failure = None\<close>) or raises (\<open>failure = Some e\<close>); a call that raises before
  the first chunk has \<open>chunks = []\<close>.
\<close>

record responseStream =
  chunks :: "response list"
  failure :: "js_exn option"

record ContextualSource =
  src_uri :: jsstring
  src_title :: jsstring

text \<open>
  The callbacks passed by the caller are modelled by the trace of their invocations, in
  order. They are taken not to throw; \<open>console.error\<close> is not traced.
\<close>

datatype event =
    TitleCandidate jsstring
  | DescriptionCandidate jsstring
  | Chunk jsstring
  | Sources "ContextualSource list"

text \<open>\<open>API_KEY\<close> is \<open>process.env.API_KEY\<close>; \<open>!API_KEY\<close> holds when it is undefined or empty.\<close>

definition configured :: "jsstring option \<Rightarrow> bool" where
  "configured API_KEY = (case API_KEY of None \<Rightarrow> False | Some k \<Rightarrow> k \<noteq> [])"

definition notConfigured :: js_exn where
  "notConfigured = NewError (js ''Gemini API key not configured.'')"

section \<open>enhanceTaskWithAIStream\<close>

record EnhancedTaskDetails =
  refinedTitle :: jsstring
  refinedDescription :: jsstring

record enhanceState =
  accumulatedResponseText :: jsstring
  finalTitle :: jsstring
  finalDescription :: jsstring
  titleSent :: bool
  firstNewlineIndex :: int

definition enhanceInit :: "jsstring \<Rightarrow> jsstring \<Rightarrow> enhanceState" where
  "enhanceInit currentTitle currentDescription =
     \<lparr> accumulatedResponseText = [],
       finalTitle = currentTitle,
       finalDescription = currentDescription,
       titleSent = False,
       firstNewlineIndex = -1 \<rparr>"

text \<open>One iteration of the \<open>for await\<close> loop: the new state and the callbacks it makes.\<close>

definition enhanceStep :: "enhanceState \<Rightarrow> response \<Rightarrow> enhanceState \<times> event list" where
  "enhanceStep st chunk =
     (case resp_text chunk of
        None \<Rightarrow> (st, [])
      | Some chunkText \<Rightarrow>
          (let acc = accumulatedResponseText st @ chunkText;
               st1 = st\<lparr>accumulatedResponseText := acc\<rparr>
           in if firstNewlineIndex st1 = -1 then
                (let idx = indexOf acc newline;
                     st2 = st1\<lparr>firstNewlineIndex := idx\<rparr>
                 in if idx \<noteq> -1 then
                      (let t = trim (substring acc 0 idx);
                           d = substringFrom acc (idx + 1)
                       in (st2\<lparr>finalTitle := t, titleSent := True, finalDescription := d\<rparr>,
                           [TitleCandidate t, DescriptionCandidate d]))
                    else
                      (let t = trim acc
                       in (st2\<lparr>finalTitle := t\<rparr>, [TitleCandidate t])))
              else
                (let d = substringFrom acc (firstNewlineIndex st1 + 1)
                 in (st1\<lparr>finalDescription := d\<rparr>, [DescriptionCandidate d]))))"

fun enhanceLoop :: "enhanceState \<Rightarrow> response list \<Rightarrow> enhanceState \<times> event list" where
  "enhanceLoop st [] = (st, [])"
| "enhanceLoop st (chunk # rest) =
     (let (st1, ev1) = enhanceStep st chunk;
          (st2, ev2) = enhanceLoop st1 rest
      in (st2, ev1 @ ev2))"

text \<open>
  The code after the loop. The final split is recomputed from the whole accumulated text
  (the second \<open>indexOf\<close>), then the closing callbacks are made.
\<close>

definition finalSplit :: "jsstring \<Rightarrow> EnhancedTaskDetails" where
  "finalSplit acc =
     (let idx = indexOf acc newline
      in if idx \<noteq> -1 then
           \<lparr> refinedTitle = trim (substring acc 0 idx),
             refinedDescription = trim (substringFrom acc (idx + 1)) \<rparr>
         else
           \<lparr> refinedTitle = trim acc, refinedDescription = [] \<rparr>)"

definition enhanceFinish :: "enhanceState \<Rightarrow> EnhancedTaskDetails \<times> event list" where
  "enhanceFinish st =
     (let r = finalSplit (accumulatedResponseText st);
          titleEvents = (if titleSent st then [TitleCandidate (refinedTitle r)]
                         else if refinedTitle r \<noteq> [] then [TitleCandidate (refinedTitle r)]
                         else [])
      in (r, titleEvents @ [DescriptionCandidate (refinedDescription r)]))"

definition enhanceTaskWithAIStream ::
  "jsstring option \<Rightarrow> jsstring \<Rightarrow> jsstring \<Rightarrow> responseStream
     \<Rightarrow> event list \<times> (js_exn + EnhancedTaskDetails)" where
  "enhanceTaskWithAIStream API_KEY currentTitle currentDescription stream =
     (if \<not> configured API_KEY then ([], Inl notConfigured)
      else
        (let (st, evs) = enhanceLoop (enhanceInit currentTitle currentDescription) (chunks stream)
         in case failure stream of
              Some error \<Rightarrow> (evs, Inl error)
            | None \<Rightarrow>
                (let (r, evs') = enhanceFinish st
                 in (evs @ evs', Inr r))))"

text \<open>The text a chunk sequence contributes: chunks whose \<open>text\<close> is not a string are skipped.\<close>

definition streamText :: "response list \<Rightarrow> jsstring" where
  "streamText cs = concat (map (\<lambda>c. case resp_text c of None \<Rightarrow> [] | Some t \<Rightarrow> t) cs)"

definition textOnly :: "jsstring \<Rightarrow> response" where
  "textOnly t = \<lparr> resp_text = Some t, candidates = None \<rparr>"

section \<open>Forwarding streams: streamSubTasksWithAI and streamContextualInfoWithAI\<close>

fun subTasksLoop :: "jsstring \<Rightarrow> response list \<Rightarrow> jsstring \<times> event list" where
  "subTasksLoop accumulatedText [] = (accumulatedText, [])"
| "subTasksLoop accumulatedText (chunk # rest) =
     (case resp_text chunk of
        Some textChunk \<Rightarrow>
          (let (acc, evs) = subTasksLoop (accumulatedText @ textChunk) rest
           in (acc, Chunk textChunk # evs))
      | None \<Rightarrow> subTasksLoop accumulatedText rest)"

definition streamSubTasksWithAI ::
  "jsstring option \<Rightarrow> responseStream \<Rightarrow> event list \<times> (js_exn + jsstring)" where
  "streamSubTasksWithAI API_KEY stream =
     (if \<not> configured API_KEY then ([], Inl notConfigured)
      else
        (let (accumulatedText, evs) = subTasksLoop [] (chunks stream)
         in case failure stream of
              Some error \<Rightarrow> (evs, Inl error)
            | None \<Rightarrow> (evs, Inr accumulatedText)))"

text \<open>
  \<open>.filter(web => web?.uri && web.uri.startsWith('http'))\<close> and
  \<open>.map(web => ({ uri: web!.uri, title: web!.title || web!.uri }))\<close>.
  The mapping is only applied to entries the filter kept, which have a \<open>web\<close>
  with a \<open>uri\<close>; its other branches are not reached.
\<close>

definition keepsWeb :: "webRef option \<Rightarrow> bool" where
  "keepsWeb w =
     (case w of
        None \<Rightarrow> False
      | Some r \<Rightarrow>
          (case web_uri r of
             None \<Rightarrow> False
           | Some u \<Rightarrow> u \<noteq> [] \<and> startsWith u (js ''http'')))"

definition toContextualSource :: "webRef option \<Rightarrow> ContextualSource" where
  "toContextualSource w =
     (case w of
        None \<Rightarrow> \<lparr> src_uri = [], src_title = [] \<rparr>
      | Some r \<Rightarrow>
          (let u = (case web_uri r of None \<Rightarrow> [] | Some u \<Rightarrow> u)
           in \<lparr> src_uri = u,
                src_title = (case web_title r of
                               None \<Rightarrow> u
                             | Some t \<Rightarrow> if t \<noteq> [] then t else u) \<rparr>))"

definition extractSources :: "groundingChunk list \<Rightarrow> ContextualSource list" where
  "extractSources gcs = map toContextualSource (filter keepsWeb (map web gcs))"

text \<open>\<open>finalApiResponse.candidates?.[0]?.groundingMetadata\<close>, then \<open>?.groundingChunks\<close>.\<close>

definition groundingChunksOf :: "response \<Rightarrow> groundingChunk list option" where
  "groundingChunksOf r =
     (case candidates r of
        None \<Rightarrow> None
      | Some cs \<Rightarrow>
          (case cs of
             [] \<Rightarrow> None
           | c # _ \<Rightarrow>
               (case cand_groundingMetadata c of
                  None \<Rightarrow> None
                | Some gm \<Rightarrow> groundingChunks gm)))"

text \<open>The \<open>onSources\<close> calls of the success path and of the \<open>catch\<close> block.\<close>

definition sourcesOnSuccess :: "response option \<Rightarrow> event list" where
  "sourcesOnSuccess finalApiResponse =
     (case finalApiResponse of
        None \<Rightarrow> []
      | Some r \<Rightarrow>
          (case groundingChunksOf r of
             None \<Rightarrow> [Sources []]
           | Some gcs \<Rightarrow>
               if length gcs > 0 then [Sources (extractSources gcs)] else [Sources []]))"

definition sourcesOnError :: "response option \<Rightarrow> event list" where
  "sourcesOnError finalApiResponse =
     (case finalApiResponse of
        None \<Rightarrow> []
      | Some r \<Rightarrow>
          (case groundingChunksOf r of
             None \<Rightarrow> []
           | Some gcs \<Rightarrow>
               if length gcs > 0 then [Sources (extractSources gcs)] else []))"

record contextState =
  accumulatedText :: jsstring
  finalApiResponse :: "response option"

fun contextLoop :: "contextState \<Rightarrow> response list \<Rightarrow> contextState \<times> event list" where
  "contextLoop st [] = (st, [])"
| "contextLoop st (chunk # rest) =
     (let st1 = st\<lparr>finalApiResponse := Some chunk\<rparr>
      in case resp_text chunk of
           Some textChunk \<Rightarrow>
             (let (st2, evs) =
                    contextLoop (st1\<lparr>accumulatedText := accumulatedText st1 @ textChunk\<rparr>) rest
              in (st2, Chunk textChunk # evs))
         | None \<Rightarrow> contextLoop st1 rest)"

definition streamContextualInfoWithAI ::
  "jsstring option \<Rightarrow> responseStream \<Rightarrow> event list \<times> (js_exn + jsstring)" where
  "streamContextualInfoWithAI API_KEY stream =
     (if \<not> configured API_KEY then ([], Inl notConfigured)
      else
        (let (st, evs) =
               contextLoop \<lparr> accumulatedText = [], finalApiResponse = None \<rparr> (chunks stream)
         in case failure stream of
              Some error \<Rightarrow> (evs @ sourcesOnError (finalApiResponse st), Inl error)
            | None \<Rightarrow> (evs @ sourcesOnSuccess (finalApiResponse st), Inr (accumulatedText st))))"

definition countSources :: "event list \<Rightarrow> nat" where
  "countSources evs = length (filter (\<lambda>e. case e of Sources _ \<Rightarrow> True | _ \<Rightarrow> False) evs)"

section \<open>JSON responses: parseTaskStringWithAI and suggestTagsWithAI\<close>

text \<open>
  The value \<open>JSON.parse\<close> returns. A number is a double; only whether it is zero is
  ever inspected, so it is kept as a rational or an infinity. An object is the list of its
  own properties in insertion order.
\<close>

datatype jsnum = Finite rat | PosInfinity | NegInfinity

datatype json =
    JNull
  | JBool bool
  | JNumber jsnum
  | JString jsstring
  | JArray "json list"
  | JObject "(jsstring \<times> json) list"

text \<open>
  What the module takes from the JavaScript runtime: \<open>JSON.parse\<close> (which raises a
  SyntaxError or returns a value), \<open>String.prototype.toLowerCase\<close>, and the TypeError
  the engine raises on reading a property of \<open>undefined\<close> or \<open>null\<close> and on writing a
  property of a primitive in strict mode.
\<close>

record runtime =
  JSON_parse :: "jsstring \<Rightarrow> js_exn + json"
  toLowerCase :: "jsstring \<Rightarrow> jsstring"
  typeError :: js_exn

fun truthy :: "json \<Rightarrow> bool" where
  "truthy JNull = False"
| "truthy (JBool b) = b"
| "truthy (JNumber n) = (n \<noteq> Finite 0)"
| "truthy (JString s) = (s \<noteq> [])"
| "truthy (JArray xs) = True"
| "truthy (JObject ps) = True"

text \<open>
  The fence pattern \<open>/^```(\w*)?\s*\n?(.*?)\n?\s*```$/s\<close>. It matches exactly the
  strings of at least six code units that begin and end with three backticks. The greedy
  \<open>(\w*)?\s*\<close> then takes the longest run of word characters and of white space after the
  opening fence, and the lazy group 2 is the shortest text after which only white space
  precedes the closing fence.
\<close>

definition fence :: jsstring where
  "fence = [backtick, backtick, backtick]"

definition fenceGroup2 :: "jsstring \<Rightarrow> jsstring option" where
  "fenceGroup2 s =
     (let n = length s
      in if 6 \<le> n \<and> take 3 s = fence \<and> drop (n - 3) s = fence then
           Some (trimEnd (dropWhile isWhiteSpace (dropWhile isWordChar (take (n - 6) (drop 3 s)))))
         else None)"

definition stripFence :: "jsstring \<Rightarrow> jsstring" where
  "stripFence jsonStr =
     (case fenceGroup2 jsonStr of
        None \<Rightarrow> jsonStr
      | Some m \<Rightarrow> if m \<noteq> [] then trim m else jsonStr)"

definition priorityKey :: jsstring where
  "priorityKey = js ''priority''"

definition tagsKey :: jsstring where
  "tagsKey = js ''tags''"

definition priorityLiterals :: "json list" where
  "priorityLiterals = [JString (js ''Low''), JString (js ''Medium''), JString (js ''High'')]"

text \<open>Lines 73 to 80: the \<open>priority\<close> check, on the properties of a parsed object.\<close>

definition coercePriority :: "(jsstring \<times> json) list \<Rightarrow> (jsstring \<times> json) list" where
  "coercePriority props =
     (case map_of props priorityKey of
        None \<Rightarrow> props
      | Some prio \<Rightarrow>
          if truthy prio then
            (if prio \<in> set priorityLiterals then AList.update priorityKey prio props
             else AList.update priorityKey JNull props)
          else props)"

text \<open>Lines 81 to 83: the \<open>tags\<close> check.\<close>

definition coerceTags :: "(jsstring \<times> json) list \<Rightarrow> (jsstring \<times> json) list" where
  "coerceTags props =
     (case map_of props tagsKey of
        Some (JArray xs) \<Rightarrow> props
      | _ \<Rightarrow> AList.update tagsKey (JArray []) props)"

text \<open>
  The object \<open>parseTaskStringWithAI\<close> returns: the parsed object with its properties, or
  (when the text was a JSON array) the array with the \<open>tags\<close> property written on it.
\<close>

datatype parsedTask =
    TaskObject "(jsstring \<times> json) list"
  | TaskArray "json list" "(jsstring \<times> json) list"

definition coerceParsed :: "runtime \<Rightarrow> json \<Rightarrow> js_exn + parsedTask" where
  "coerceParsed rt parsedData =
     (case parsedData of
        JObject props \<Rightarrow> Inr (TaskObject (coerceTags (coercePriority props)))
      | JArray xs \<Rightarrow> Inr (TaskArray xs [(tagsKey, JArray [])])
      | JNull \<Rightarrow> Inl (typeError rt)
      | _ \<Rightarrow> Inl (typeError rt))"

text \<open>The \<open>try\<close> block from the response on; \<open>call\<close> is the outcome of \<open>generateContent\<close>.\<close>

definition parsedResponse :: "runtime \<Rightarrow> js_exn + response \<Rightarrow> js_exn + json" where
  "parsedResponse rt call =
     (case call of
        Inl error \<Rightarrow> Inl error
      | Inr response \<Rightarrow>
          (case resp_text response of
             None \<Rightarrow> Inl (typeError rt)
           | Some t \<Rightarrow> JSON_parse rt (stripFence (trim t))))"

definition parseFailureMessage :: "js_exn \<Rightarrow> jsstring" where
  "parseFailureMessage error =
     js ''Failed to parse task with AI.'' @
     (if instanceofError error then js '' Details: '' @ message error else [])"

definition parseTaskStringWithAI ::
  "jsstring option \<Rightarrow> runtime \<Rightarrow> js_exn + response \<Rightarrow> js_exn + parsedTask" where
  "parseTaskStringWithAI API_KEY rt call =
     (if \<not> configured API_KEY then Inl notConfigured
      else
        (case (case parsedResponse rt call of
                 Inl error \<Rightarrow> Inl error
               | Inr parsedData \<Rightarrow> coerceParsed rt parsedData) of
           Inl error \<Rightarrow> Inl (NewError (parseFailureMessage error))
         | Inr parsedData \<Rightarrow> Inr parsedData))"

text \<open>\<open>.replace(/\s+/g, '-')\<close>: every maximal run of white space becomes one hyphen.\<close>

function replaceWhitespaceRuns :: "jsstring \<Rightarrow> jsstring" where
  "replaceWhitespaceRuns [] = []"
| "replaceWhitespaceRuns (c # cs) =
     (if isWhiteSpace c then hyphen # replaceWhitespaceRuns (dropWhile isWhiteSpace cs)
      else c # replaceWhitespaceRuns cs)"
  by pat_completeness auto
termination
  by (relation "measure length") (auto simp: le_imp_less_Suc length_dropWhile_le)

definition normalizeTag :: "runtime \<Rightarrow> jsstring \<Rightarrow> jsstring" where
  "normalizeTag rt tag = replaceWhitespaceRuns (toLowerCase rt tag)"

fun isString :: "json \<Rightarrow> bool" where
  "isString (JString s) = True"
| "isString v = False"

text \<open>Lines 218 to 221.\<close>

definition tagsOfParsed :: "runtime \<Rightarrow> json \<Rightarrow> jsstring list" where
  "tagsOfParsed rt parsedTags =
     (case parsedTags of
        JArray xs \<Rightarrow>
          if list_all isString xs
          then map (\<lambda>tag. case tag of JString s \<Rightarrow> normalizeTag rt s | _ \<Rightarrow> []) xs
          else []
      | _ \<Rightarrow> [])"

definition suggestFailure :: js_exn where
  "suggestFailure = NewError (js ''Failed to suggest tags with AI.'')"

definition suggestTagsWithAI ::
  "jsstring option \<Rightarrow> runtime \<Rightarrow> js_exn + response \<Rightarrow> js_exn + jsstring list" where
  "suggestTagsWithAI API_KEY rt call =
     (if \<not> configured API_KEY then Inl notConfigured
      else
        (case parsedResponse rt call of
           Inl error \<Rightarrow> Inl suggestFailure
         | Inr parsedTags \<Rightarrow> Inr (tagsOfParsed rt parsedTags)))"

section \<open>Reference notions and example runtimes\<close>

text \<open>
  The reading of "begins with an HTTP(S) scheme": the text starts with the scheme name
  \<open>http\<close> or \<open>https\<close> and the colon that ends a URI scheme.
\<close>

definition beginsWithHttpScheme :: "jsstring \<Rightarrow> bool" where
  "beginsWithHttpScheme u \<longleftrightarrow> startsWith u (js ''http:'') \<or> startsWith u (js ''https:'')"

text \<open>What is reported for one citation candidate, if anything.\<close>

definition reportedSource :: "groundingChunk \<Rightarrow> ContextualSource option" where
  "reportedSource g =
     (case web g of
        None \<Rightarrow> None
      | Some r \<Rightarrow>
          (case web_uri r of
             None \<Rightarrow> None
           | Some u \<Rightarrow>
               if u \<noteq> [] \<and> take 4 u = js ''http'' then
                 Some \<lparr> src_uri = u,
                        src_title = (case web_title r of
                                       None \<Rightarrow> u
                                     | Some t \<Rightarrow> if t = [] then u else t) \<rparr>
               else None))"

text \<open>
  A runtime for the examples. Its \<open>JSON.parse\<close> knows the texts of a table and raises a
  SyntaxError on any other; its \<open>toLowerCase\<close> maps \<open>A\<close> to \<open>Z\<close> to lower case and
  agrees with JavaScript on ASCII text.
\<close>

definition dquote :: code_unit where
  "dquote = 0x0022"

definition quoted :: "jsstring \<Rightarrow> jsstring" where
  "quoted s = dquote # s @ [dquote]"

definition syntaxError :: js_exn where
  "syntaxError = Thrown 1 (Some (js ''Unexpected token''))"

definition parseTable :: "(jsstring \<times> json) list \<Rightarrow> jsstring \<Rightarrow> js_exn + json" where
  "parseTable table s = (case map_of table s of None \<Rightarrow> Inl syntaxError | Some v \<Rightarrow> Inr v)"

definition asciiLowerCase :: "jsstring \<Rightarrow> jsstring" where
  "asciiLowerCase s = map (\<lambda>c. if 0x0041 \<le> c \<and> c \<le> 0x005A then c + 0x0020 else c) s"

definition exampleRuntime :: "(jsstring \<times> json) list \<Rightarrow> runtime" where
  "exampleRuntime table =
     \<lparr> JSON_parse = parseTable table,
       toLowerCase = asciiLowerCase,
       typeError = Thrown 2 (Some (js ''Cannot read properties of undefined'')) \<rparr>"

text \<open>A runtime whose \<open>JSON.parse\<close> never raises: it returns one value for every text.\<close>

definition acceptingRuntime :: "json \<Rightarrow> runtime" where
  "acceptingRuntime v =
     \<lparr> JSON_parse = (\<lambda>s. Inr v),
       toLowerCase = asciiLowerCase,
       typeError = Thrown 2 (Some (js ''Cannot read properties of undefined'')) \<rparr>"

definition webChunk :: "jsstring \<Rightarrow> jsstring option \<Rightarrow> groundingChunk" where
  "webChunk u t = \<lparr> web = Some \<lparr> web_uri = Some u, web_title = t \<rparr> \<rparr>"

definition groundedResponse :: "jsstring option \<Rightarrow> groundingChunk list \<Rightarrow> response" where
  "groundedResponse t gcs =
     \<lparr> resp_text = t,
       candidates = Some [\<lparr> cand_groundingMetadata = Some \<lparr> groundingChunks = Some gcs \<rparr> \<rparr>] \<rparr>"

section \<open>Properties\<close>

subsection \<open>String operations\<close>

lemma indexOf_notin: "c \<notin> set s \<Longrightarrow> indexOf s c = -1"
  by (induction s) auto

lemma indexOf_in: "c \<in> set s \<Longrightarrow> indexOf s c = int (length (takeWhile (\<lambda>x. x \<noteq> c) s))"
proof (induction s)
  case Nil
  then show ?case by simp
next
  case (Cons x xs)
  show ?case
  proof (cases "x = c")
    case True
    then show ?thesis by simp
  next
    case False
    with Cons.prems have "c \<in> set xs" by simp
    with Cons.IH have "indexOf xs c = int (length (takeWhile (\<lambda>x. x \<noteq> c) xs))" by simp
    with False show ?thesis by (simp add: Let_def)
  qed
qed

lemma indexOf_minus1_iff: "indexOf s c = -1 \<longleftrightarrow> c \<notin> set s"
  using indexOf_in[of c s] indexOf_notin[of c s] by auto

lemma substring_prefix: "k \<le> length s \<Longrightarrow> substring s 0 (int k) = take k s"
  by (simp add: substring_def Let_def min_def max_def)

lemma substringFrom_drop: "substringFrom s (int k) = drop k s"
  by (auto simp add: substringFrom_def substring_def Let_def min_def max_def)

lemma first_pos_takeWhile:
  "k < length s \<Longrightarrow> s ! k = c \<Longrightarrow> (\<forall>j<k. s ! j \<noteq> c) \<Longrightarrow>
   length (takeWhile (\<lambda>x. x \<noteq> c) s) = k"
proof (induction s arbitrary: k)
  case Nil
  then show ?case by simp
next
  case (Cons x xs)
  show ?case
  proof (cases k)
    case 0
    with Cons.prems show ?thesis by simp
  next
    case (Suc k')
    from Cons.prems Suc have "x \<noteq> c" by (metis nth_Cons_0 zero_less_Suc)
    moreover have "length (takeWhile (\<lambda>x. x \<noteq> c) xs) = k'"
      using Cons.prems Suc by (intro Cons.IH) auto
    ultimately show ?thesis using Suc by simp
  qed
qed

lemma trim_empty_iff: "trim s = [] \<longleftrightarrow> list_all isWhiteSpace s"
proof
  assume "list_all isWhiteSpace s"
  then have d: "dropWhile isWhiteSpace s = []"
    by (simp only: dropWhile_eq_Nil_conv list_all_iff)
  show "trim s = []"
    by (simp only: trim_def trimStart_def trimEnd_def d rev.simps dropWhile.simps)
next
  assume empty: "trim s = []"
  show "list_all isWhiteSpace s"
  proof (rule ccontr)
    assume "\<not> list_all isWhiteSpace s"
    then have ne: "dropWhile isWhiteSpace s \<noteq> []"
      by (simp only: dropWhile_eq_Nil_conv list_all_iff not_False_eq_True)
    then have "\<not> isWhiteSpace (hd (dropWhile isWhiteSpace s))"
      by (rule hd_dropWhile)
    moreover have "hd (dropWhile isWhiteSpace s) \<in> set (rev (dropWhile isWhiteSpace s))"
      using ne by simp
    ultimately have "dropWhile isWhiteSpace (rev (dropWhile isWhiteSpace s)) \<noteq> []"
      by (metis dropWhile_eq_Nil_conv)
    with empty show False
      by (simp add: trim_def trimStart_def trimEnd_def)
  qed
qed

subsection \<open>The accumulated text of enhanceTaskWithAIStream\<close>

lemma streamText_Cons: "streamText (c # cs) = streamText [c] @ streamText cs"
  by (simp add: streamText_def)

lemma enhanceStep_acc:
  "accumulatedResponseText (fst (enhanceStep st c)) = accumulatedResponseText st @ streamText [c]"
  by (simp add: enhanceStep_def streamText_def Let_def split: option.splits)

lemma enhanceLoop_acc:
  "accumulatedResponseText (fst (enhanceLoop st cs)) = accumulatedResponseText st @ streamText cs"
proof (induction cs arbitrary: st)
  case Nil
  then show ?case by (simp add: streamText_def)
next
  case (Cons c cs)
  have "accumulatedResponseText (fst (enhanceLoop st (c # cs)))
      = accumulatedResponseText (fst (enhanceLoop (fst (enhanceStep st c)) cs))"
    by (simp add: split_beta Let_def)
  also have "\<dots> = (accumulatedResponseText st @ streamText [c]) @ streamText cs"
    by (simp only: Cons.IH enhanceStep_acc)
  finally show ?case using streamText_Cons[of c cs] by simp
qed

lemma enhance_result:
  assumes "configured API_KEY" "failure stream = None"
  shows "snd (enhanceTaskWithAIStream API_KEY ct cd stream)
           = Inr (finalSplit (streamText (chunks stream)))"
proof -
  let ?st = "fst (enhanceLoop (enhanceInit ct cd) (chunks stream))"
  have acc: "accumulatedResponseText ?st = streamText (chunks stream)"
    by (simp add: enhanceLoop_acc enhanceInit_def)
  have "snd (enhanceTaskWithAIStream API_KEY ct cd stream) = Inr (fst (enhanceFinish ?st))"
    using assms by (simp add: enhanceTaskWithAIStream_def split_beta Let_def)
  also have "fst (enhanceFinish ?st) = finalSplit (streamText (chunks stream))"
    by (simp add: enhanceFinish_def Let_def acc)
  finally show ?thesis .
qed

lemma finalSplit_no_newline:
  "newline \<notin> set acc \<Longrightarrow> finalSplit acc = \<lparr> refinedTitle = trim acc, refinedDescription = [] \<rparr>"
  by (simp add: finalSplit_def Let_def indexOf_notin)

lemma finalSplit_newline:
  assumes "k < length acc" "acc ! k = newline" "\<forall>j<k. acc ! j \<noteq> newline"
  shows "finalSplit acc =
           \<lparr> refinedTitle = trim (take k acc), refinedDescription = trim (drop (Suc k) acc) \<rparr>"
proof -
  have mem: "newline \<in> set acc" using assms(1,2) by (metis nth_mem)
  have idx: "indexOf acc newline = int k"
    using indexOf_in[OF mem] first_pos_takeWhile[OF assms] by simp
  have s1: "substring acc 0 (int k) = take k acc" using assms(1) by (simp add: substring_prefix)
  have s2: "substringFrom acc (int k + 1) = drop (Suc k) acc"
    using substringFrom_drop[of acc "Suc k"] by (simp add: add.commute)
  show ?thesis
    by (simp add: finalSplit_def Let_def idx s1 s2)
qed

lemma enhanceLoop_append:
  "enhanceLoop st (xs @ ys) =
     (let (st1, e1) = enhanceLoop st xs; (st2, e2) = enhanceLoop st1 ys in (st2, e1 @ e2))"
  by (induction xs arbitrary: st) (simp_all add: split_beta Let_def)

lemma enhanceLoop_snoc_events:
  "snd (enhanceLoop st (xs @ [c])) =
     snd (enhanceLoop st xs) @ snd (enhanceStep (fst (enhanceLoop st xs)) c)"
  by (simp add: enhanceLoop_append split_beta Let_def)

lemma indexOf_append_in:
  "c \<in> set s \<Longrightarrow> indexOf (s @ t) c = indexOf s c"
  by (simp add: indexOf_in takeWhile_append1)

lemma enhanceStep_index:
  assumes "firstNewlineIndex st = indexOf (accumulatedResponseText st) newline"
  shows "firstNewlineIndex (fst (enhanceStep st c))
           = indexOf (accumulatedResponseText (fst (enhanceStep st c))) newline"
proof (cases "resp_text c")
  case None
  then show ?thesis using assms by (simp add: enhanceStep_def)
next
  case (Some f)
  show ?thesis
  proof (cases "newline \<in> set (accumulatedResponseText st)")
    case True
    then have "indexOf (accumulatedResponseText st) newline \<noteq> -1"
      by (simp add: indexOf_minus1_iff)
    with Some assms True show ?thesis
      by (simp add: enhanceStep_def Let_def indexOf_append_in)
  next
    case False
    then have "firstNewlineIndex st = -1" using assms by (simp add: indexOf_notin)
    with Some show ?thesis by (simp add: enhanceStep_def Let_def)
  qed
qed

lemma enhanceStep_titleSent:
  assumes "firstNewlineIndex st = indexOf (accumulatedResponseText st) newline"
    and "titleSent st \<longleftrightarrow> newline \<in> set (accumulatedResponseText st)"
  shows "titleSent (fst (enhanceStep st c))
           \<longleftrightarrow> newline \<in> set (accumulatedResponseText (fst (enhanceStep st c)))"
proof (cases "resp_text c")
  case None
  then show ?thesis using assms by (simp add: enhanceStep_def)
next
  case (Some f)
  show ?thesis
  proof (cases "newline \<in> set (accumulatedResponseText st)")
    case True
    then have "indexOf (accumulatedResponseText st) newline \<noteq> -1"
      by (simp add: indexOf_minus1_iff)
    with Some assms True show ?thesis
      by (simp add: enhanceStep_def Let_def)
  next
    case False
    then have m1: "firstNewlineIndex st = -1" using assms by (simp add: indexOf_notin)
    have "indexOf (accumulatedResponseText st @ f) newline \<noteq> -1
            \<longleftrightarrow> newline \<in> set (accumulatedResponseText st @ f)"
      by (simp only: indexOf_minus1_iff not_not)
    with Some m1 assms(2) False show ?thesis
      by (simp add: enhanceStep_def Let_def)
  qed
qed

lemma enhanceLoop_invariant:
  assumes "firstNewlineIndex st = indexOf (accumulatedResponseText st) newline"
    and "titleSent st \<longleftrightarrow> newline \<in> set (accumulatedResponseText st)"
  shows "firstNewlineIndex (fst (enhanceLoop st cs))
           = indexOf (accumulatedResponseText (fst (enhanceLoop st cs))) newline \<and>
         (titleSent (fst (enhanceLoop st cs))
           \<longleftrightarrow> newline \<in> set (accumulatedResponseText (fst (enhanceLoop st cs))))"
  using assms
proof (induction cs arbitrary: st)
  case Nil
  then show ?case by simp
next
  case (Cons c cs)
  have step: "fst (enhanceLoop st (c # cs)) = fst (enhanceLoop (fst (enhanceStep st c)) cs)"
    by (simp add: split_beta Let_def)
  show ?case
    unfolding step
    by (rule Cons.IH) (use Cons.prems in \<open>simp_all only: enhanceStep_index enhanceStep_titleSent\<close>)
qed

lemma enhanceInit_invariant:
  "firstNewlineIndex (enhanceInit ct cd) = indexOf (accumulatedResponseText (enhanceInit ct cd)) newline"
  "titleSent (enhanceInit ct cd) \<longleftrightarrow> newline \<in> set (accumulatedResponseText (enhanceInit ct cd))"
  by (simp_all add: enhanceInit_def)

lemma enhanceLoop_init_state:
  "accumulatedResponseText (fst (enhanceLoop (enhanceInit ct cd) cs)) = streamText cs"
  "firstNewlineIndex (fst (enhanceLoop (enhanceInit ct cd) cs)) = indexOf (streamText cs) newline"
  "titleSent (fst (enhanceLoop (enhanceInit ct cd) cs)) \<longleftrightarrow> newline \<in> set (streamText cs)"
proof -
  show a: "accumulatedResponseText (fst (enhanceLoop (enhanceInit ct cd) cs)) = streamText cs"
    by (simp add: enhanceLoop_acc enhanceInit_def)
  from enhanceLoop_invariant[OF enhanceInit_invariant, of ct cd cs]
  show "firstNewlineIndex (fst (enhanceLoop (enhanceInit ct cd) cs)) = indexOf (streamText cs) newline"
    and "titleSent (fst (enhanceLoop (enhanceInit ct cd) cs)) \<longleftrightarrow> newline \<in> set (streamText cs)"
    by (simp_all only: a)
qed

lemma substring_before_first:
  "c \<in> set s \<Longrightarrow> substring s 0 (indexOf s c) = takeWhile (\<lambda>x. x \<noteq> c) s"
proof -
  assume "c \<in> set s"
  then have i: "indexOf s c = int (length (takeWhile (\<lambda>x. x \<noteq> c) s))" by (rule indexOf_in)
  have "length (takeWhile (\<lambda>x. x \<noteq> c) s) \<le> length s" by (rule length_takeWhile_le)
  then show ?thesis
    unfolding i by (simp add: substring_prefix takeWhile_eq_take[symmetric])
qed

lemma substringFrom_after_first:
  "c \<in> set s \<Longrightarrow> substringFrom s (indexOf s c + 1) = drop 1 (dropWhile (\<lambda>x. x \<noteq> c) s)"
proof -
  assume "c \<in> set s"
  then have i: "indexOf s c = int (length (takeWhile (\<lambda>x. x \<noteq> c) s))" by (rule indexOf_in)
  have "substringFrom s (int (Suc (length (takeWhile (\<lambda>x. x \<noteq> c) s))))
          = drop (Suc (length (takeWhile (\<lambda>x. x \<noteq> c) s))) s"
    by (rule substringFrom_drop)
  also have "\<dots> = drop 1 (drop (length (takeWhile (\<lambda>x. x \<noteq> c) s)) s)"
    by simp
  also have "\<dots> = drop 1 (dropWhile (\<lambda>x. x \<noteq> c) s)"
    by (simp only: dropWhile_eq_drop[symmetric])
  finally show ?thesis unfolding i by (simp add: add.commute)
qed

lemma enhanceStep_events:
  assumes "resp_text c = Some f"
    and "firstNewlineIndex st = indexOf (accumulatedResponseText st) newline"
  shows "snd (enhanceStep st c) =
           (let before = accumulatedResponseText st; acc = before @ f
            in if newline \<in> set before then
                 [DescriptionCandidate (drop 1 (dropWhile (\<lambda>x. x \<noteq> newline) acc))]
               else if newline \<in> set acc then
                 [TitleCandidate (trim (takeWhile (\<lambda>x. x \<noteq> newline) acc)),
                  DescriptionCandidate (drop 1 (dropWhile (\<lambda>x. x \<noteq> newline) acc))]
               else [TitleCandidate (trim acc)])"
proof (cases "newline \<in> set (accumulatedResponseText st)")
  case True
  then have ne: "indexOf (accumulatedResponseText st) newline \<noteq> -1"
    by (simp add: indexOf_minus1_iff)
  have mem: "newline \<in> set (accumulatedResponseText st @ f)" using True by simp
  have "indexOf (accumulatedResponseText st) newline = indexOf (accumulatedResponseText st @ f) newline"
    using True by (simp add: indexOf_append_in)
  then have "substringFrom (accumulatedResponseText st @ f) (indexOf (accumulatedResponseText st) newline + 1)
          = drop 1 (dropWhile (\<lambda>x. x \<noteq> newline) (accumulatedResponseText st @ f))"
    using substringFrom_after_first[OF mem] by simp
  with assms True ne show ?thesis
    by (simp add: enhanceStep_def Let_def)
next
  case False
  then have m1: "firstNewlineIndex st = -1" using assms by (simp add: indexOf_notin)
  show ?thesis
  proof (cases "newline \<in> set (accumulatedResponseText st @ f)")
    case True
    then have ne: "indexOf (accumulatedResponseText st @ f) newline \<noteq> -1"
      by (simp add: indexOf_minus1_iff)
    from assms(1) m1 False True ne
      substring_before_first[OF True] substringFrom_after_first[OF True]
    show ?thesis
      by (simp add: enhanceStep_def Let_def)
  next
    case nomem: False
    then have "indexOf (accumulatedResponseText st @ f) newline = -1"
      by (simp add: indexOf_notin)
    with assms(1) m1 False nomem show ?thesis
      by (simp add: enhanceStep_def Let_def)
  qed
qed

subsection \<open>The forwarding loops\<close>

lemma contextLoop_events:
  "snd (contextLoop st cs) = map Chunk (List.map_filter resp_text cs)"
proof (induction cs arbitrary: st)
  case Nil
  then show ?case by simp
next
  case (Cons c cs)
  then show ?case
    by (cases "resp_text c") (simp_all add: split_beta Let_def)
qed

lemma contextLoop_final:
  "finalApiResponse (fst (contextLoop st cs))
     = (if cs = [] then finalApiResponse st else Some (last cs))"
proof (induction cs arbitrary: st)
  case Nil
  then show ?case by simp
next
  case (Cons c cs)
  then show ?case
    by (cases "resp_text c") (simp_all add: split_beta Let_def)
qed

lemma contextLoop_text:
  "accumulatedText (fst (contextLoop st cs)) = accumulatedText st @ streamText cs"
proof (induction cs arbitrary: st)
  case Nil
  then show ?case by (simp add: streamText_def)
next
  case (Cons c cs)
  then show ?case
    by (cases "resp_text c") (simp_all add: split_beta Let_def streamText_def)
qed

lemma subTasksLoop_events:
  "snd (subTasksLoop acc cs) = map Chunk (List.map_filter resp_text cs)"
proof (induction cs arbitrary: acc)
  case Nil
  then show ?case by simp
next
  case (Cons c cs)
  then show ?case
    by (cases "resp_text c") (simp_all add: split_beta)
qed

lemma countSources_append: "countSources (xs @ ys) = countSources xs + countSources ys"
  by (simp add: countSources_def)

lemma countSources_chunks: "countSources (map Chunk ts) = 0"
  by (induction ts) (simp_all add: countSources_def)

lemma countSources_success: "countSources (sourcesOnSuccess r) = (if r = None then 0 else 1)"
  by (simp add: sourcesOnSuccess_def countSources_def split: option.splits)

lemma countSources_error: "countSources (sourcesOnError r) \<le> 1"
  by (simp add: sourcesOnError_def countSources_def split: option.splits)

lemma context_run:
  assumes "configured API_KEY"
  shows "streamContextualInfoWithAI API_KEY stream =
           (map Chunk (List.map_filter resp_text (chunks stream)) @
            (let final = (if chunks stream = [] then None else Some (last (chunks stream)))
             in case failure stream of
                  Some error \<Rightarrow> sourcesOnError final
                | None \<Rightarrow> sourcesOnSuccess final),
            case failure stream of
              Some error \<Rightarrow> Inl error
            | None \<Rightarrow> Inr (streamText (chunks stream)))"
  using assms
  by (cases "failure stream")
     (simp_all add: streamContextualInfoWithAI_def split_beta Let_def contextLoop_events
        contextLoop_final contextLoop_text)

lemma startsWith_http: "startsWith u (js ''http'') \<longleftrightarrow> take 4 u = js ''http''"
proof -
  have "length (js ''http'') = 4" by (simp add: js_def)
  then show ?thesis by (simp only: startsWith_def)
qed

lemma reportedSource_keepsWeb:
  "reportedSource g = (if keepsWeb (web g) then Some (toContextualSource (web g)) else None)"
  by (simp add: reportedSource_def keepsWeb_def toContextualSource_def startsWith_http
      Let_def split: option.splits)

lemma extractSources_reported: "extractSources gcs = List.map_filter reportedSource gcs"
proof (induction gcs)
  case Nil
  then show ?case by (simp add: extractSources_def)
next
  case (Cons g gcs)
  then have ih: "map toContextualSource (filter keepsWeb (map web gcs))
                   = List.map_filter reportedSource gcs"
    by (simp add: extractSources_def)
  have unfold: "List.map_filter reportedSource (g # gcs) =
          (case reportedSource g of
             None \<Rightarrow> List.map_filter reportedSource gcs
           | Some x \<Rightarrow> x # List.map_filter reportedSource gcs)"
    by simp
  show ?case
  proof (cases "keepsWeb (web g)")
    case True
    with reportedSource_keepsWeb[of g]
    have "reportedSource g = Some (toContextualSource (web g))" by simp
    with True show ?thesis unfolding unfold by (simp add: extractSources_def ih)
  next
    case False
    with reportedSource_keepsWeb[of g] have "reportedSource g = None" by simp
    with False show ?thesis unfolding unfold by (simp add: extractSources_def ih)
  qed
qed

subsection \<open>Parsed responses\<close>

lemma priorityKey_neq_tagsKey: "priorityKey \<noteq> tagsKey"
  by (simp add: priorityKey_def tagsKey_def js_def)

lemma map_of_coercePriority:
  "map_of (coercePriority props) k =
     (if k = priorityKey then
        (case map_of props priorityKey of
           None \<Rightarrow> None
         | Some p \<Rightarrow> if truthy p \<and> p \<notin> set priorityLiterals then Some JNull else Some p)
      else map_of props k)"
  by (simp add: coercePriority_def update_conv' split: option.splits)

lemma map_of_coerceTags:
  "map_of (coerceTags props) k =
     (if k = tagsKey then
        (case map_of props tagsKey of
           Some (JArray xs) \<Rightarrow> Some (JArray xs)
         | _ \<Rightarrow> Some (JArray []))
      else map_of props k)"
  by (simp add: coerceTags_def update_conv' split: option.splits json.splits)

lemma parse_object_result:
  assumes "configured API_KEY" and "resp_text response = Some t"
    and "JSON_parse rt (stripFence (trim t)) = Inr (JObject props)"
  shows "parseTaskStringWithAI API_KEY rt (Inr response)
           = Inr (TaskObject (coerceTags (coercePriority props)))"
  using assms by (simp add: parseTaskStringWithAI_def parsedResponse_def coerceParsed_def)

lemma suggest_result:
  assumes "configured API_KEY" and "resp_text response = Some t"
  shows "suggestTagsWithAI API_KEY rt (Inr response) =
           (case JSON_parse rt (stripFence (trim t)) of
              Inl error \<Rightarrow> Inl suggestFailure
            | Inr parsedTags \<Rightarrow> Inr (tagsOfParsed rt parsedTags))"
  using assms by (simp add: suggestTagsWithAI_def parsedResponse_def)

subsection \<open>Claims\<close>

text \<open>
  C1. When the stream completes, the pair \<open>enhanceTaskWithAIStream\<close> returns is a function of
  the concatenation of the fragments alone: without a newline in the concatenation the
  title is the trimmed concatenation and the body is empty; with the first newline at
  position \<open>k\<close> the title is the trimmed text before \<open>k\<close> and the body the trimmed text
  after \<open>k\<close>; any other completed stream with the same concatenation returns the same pair.
\<close>

theorem enhance_final_split:
  assumes "configured API_KEY" and "failure stream = None"
  shows "\<exists>evs r.
           enhanceTaskWithAIStream API_KEY currentTitle currentDescription stream = (evs, Inr r) \<and>
           (newline \<notin> set (streamText (chunks stream)) \<longrightarrow>
              refinedTitle r = trim (streamText (chunks stream)) \<and> refinedDescription r = []) \<and>
           (\<forall>k. k < length (streamText (chunks stream)) \<and>
                streamText (chunks stream) ! k = newline \<and>
                (\<forall>j<k. streamText (chunks stream) ! j \<noteq> newline) \<longrightarrow>
                refinedTitle r = trim (take k (streamText (chunks stream))) \<and>
                refinedDescription r = trim (drop (Suc k) (streamText (chunks stream)))) \<and>
           (\<forall>key' title' description' stream'.
                configured key' \<and> failure stream' = None \<and>
                streamText (chunks stream') = streamText (chunks stream) \<longrightarrow>
                snd (enhanceTaskWithAIStream key' title' description' stream') = Inr r)"
proof -
  let ?acc = "streamText (chunks stream)"
  let ?r = "finalSplit ?acc"
  have res: "snd (enhanceTaskWithAIStream API_KEY currentTitle currentDescription stream) = Inr ?r"
    using assms by (rule enhance_result)
  then have "enhanceTaskWithAIStream API_KEY currentTitle currentDescription stream
               = (fst (enhanceTaskWithAIStream API_KEY currentTitle currentDescription stream), Inr ?r)"
    by (metis prod.collapse)
  moreover have "newline \<notin> set ?acc \<longrightarrow> refinedTitle ?r = trim ?acc \<and> refinedDescription ?r = []"
    by (simp add: finalSplit_no_newline)
  moreover have "\<forall>k. k < length ?acc \<and> ?acc ! k = newline \<and> (\<forall>j<k. ?acc ! j \<noteq> newline) \<longrightarrow>
                   refinedTitle ?r = trim (take k ?acc) \<and>
                   refinedDescription ?r = trim (drop (Suc k) ?acc)"
  proof (intro allI impI)
    fix k
    assume "k < length ?acc \<and> ?acc ! k = newline \<and> (\<forall>j<k. ?acc ! j \<noteq> newline)"
    then have "?r = \<lparr> refinedTitle = trim (take k ?acc),
                       refinedDescription = trim (drop (Suc k) ?acc) \<rparr>"
      by (intro finalSplit_newline) simp_all
    then show "refinedTitle ?r = trim (take k ?acc) \<and>
               refinedDescription ?r = trim (drop (Suc k) ?acc)"
      by simp
  qed
  moreover have "\<forall>key' title' description' stream'.
                   configured key' \<and> failure stream' = None \<and> streamText (chunks stream') = ?acc \<longrightarrow>
                   snd (enhanceTaskWithAIStream key' title' description' stream') = Inr ?r"
    using enhance_result by metis
  ultimately show ?thesis by blast
qed

theorem enhance_final_split_witness:
  "configured (Some (js ''key'')) \<and>
   failure \<lparr> chunks = [textOnly (js ''ab''), textOnly (js ''c'' @ [newline] @ js ''de''),
                       textOnly (js ''f'')], failure = None \<rparr> = None \<and>
   snd (enhanceTaskWithAIStream (Some (js ''key'')) (js ''old'') (js ''old text'')
          \<lparr> chunks = [textOnly (js ''ab''), textOnly (js ''c'' @ [newline] @ js ''de''),
                       textOnly (js ''f'')], failure = None \<rparr>)
     = Inr \<lparr> refinedTitle = js ''abc'', refinedDescription = js ''def'' \<rparr> \<and>
   snd (enhanceTaskWithAIStream (Some (js ''key'')) (js ''old'') (js ''old text'')
          \<lparr> chunks = [textOnly (js ''abc'' @ [newline] @ js ''def'')], failure = None \<rparr>)
     = Inr \<lparr> refinedTitle = js ''abc'', refinedDescription = js ''def'' \<rparr>"
proof -
  let ?s = "\<lparr> chunks = [textOnly (js ''ab''), textOnly (js ''c'' @ [newline] @ js ''de''),
                       textOnly (js ''f'')], failure = None \<rparr>"
  let ?s' = "\<lparr> chunks = [textOnly (js ''abc'' @ [newline] @ js ''def'')], failure = None \<rparr>"
  have key: "configured (Some (js ''key''))" by (simp add: configured_def js_def)
  have fl: "failure ?s = None" by simp
  have acc: "streamText (chunks ?s) = [0x61, 0x62, 0x63, 0x0A, 0x64, 0x65, 0x66]"
    by (simp add: streamText_def textOnly_def js_def newline_def)
  have acc': "streamText (chunks ?s') = streamText (chunks ?s)"
    by (simp add: streamText_def textOnly_def js_def newline_def)
  from enhance_final_split[OF key fl, of "js ''old''" "js ''old text''"]
  obtain evs r where
    run: "enhanceTaskWithAIStream (Some (js ''key'')) (js ''old'') (js ''old text'') ?s = (evs, Inr r)"
    and at: "\<forall>k. k < length (streamText (chunks ?s)) \<and> streamText (chunks ?s) ! k = newline \<and>
                (\<forall>j<k. streamText (chunks ?s) ! j \<noteq> newline) \<longrightarrow>
                refinedTitle r = trim (take k (streamText (chunks ?s))) \<and>
                refinedDescription r = trim (drop (Suc k) (streamText (chunks ?s)))"
    and same: "\<forall>key' title' description' stream'.
                configured key' \<and> failure stream' = None \<and>
                streamText (chunks stream') = streamText (chunks ?s) \<longrightarrow>
                snd (enhanceTaskWithAIStream key' title' description' stream') = Inr r"
    by blast
  have pre: "(3::nat) < length (streamText (chunks ?s)) \<and> streamText (chunks ?s) ! 3 = newline \<and>
             (\<forall>j<3. streamText (chunks ?s) ! j \<noteq> newline)"
    unfolding acc by (simp add: newline_def less_Suc_eq numeral_3_eq_3 nth_Cons')
  from at pre have "refinedTitle r = trim (take 3 (streamText (chunks ?s))) \<and>
                    refinedDescription r = trim (drop (Suc 3) (streamText (chunks ?s)))"
    by blast
  then have "refinedTitle r = js ''abc'' \<and> refinedDescription r = js ''def''"
    unfolding acc by (simp add: trim_def trimEnd_def trimStart_def isWhiteSpace_def js_def)
  then have r: "r = \<lparr> refinedTitle = js ''abc'', refinedDescription = js ''def'' \<rparr>"
    by simp
  from run r have one: "snd (enhanceTaskWithAIStream (Some (js ''key'')) (js ''old'') (js ''old text'') ?s)
                          = Inr \<lparr> refinedTitle = js ''abc'', refinedDescription = js ''def'' \<rparr>"
    by simp
  from same key acc' r
  have two: "snd (enhanceTaskWithAIStream (Some (js ''key'')) (js ''old'') (js ''old text'') ?s')
               = Inr \<lparr> refinedTitle = js ''abc'', refinedDescription = js ''def'' \<rparr>"
    by simp
  from key fl one two show ?thesis by blast
qed

lemma enhance_trace_prefix:
  assumes "configured API_KEY"
  shows "\<exists>later. fst (enhanceTaskWithAIStream API_KEY ct cd
                         \<lparr> chunks = seen @ post, failure = outcome \<rparr>)
           = snd (enhanceLoop (enhanceInit ct cd) seen) @ later"
  using assms
  by (cases outcome)
     (simp_all add: enhanceTaskWithAIStream_def enhanceLoop_append split_beta Let_def)

lemma buy_milk_loop:
  "enhanceLoop (enhanceInit ct cd)
     [textOnly (js ''Buy milk'' @ [newline]), textOnly (js ''Remember ''),
      textOnly (js ''the reusable bags.'')]
   = (\<lparr> accumulatedResponseText = js ''Buy milk'' @ newline # js ''Remember the reusable bags.'',
        finalTitle = js ''Buy milk'',
        finalDescription = js ''Remember the reusable bags.'',
        titleSent = True,
        firstNewlineIndex = 8 \<rparr>,
      [TitleCandidate (js ''Buy milk''), DescriptionCandidate [],
       DescriptionCandidate (js ''Remember ''),
       DescriptionCandidate (js ''Remember the reusable bags.'')])"
  by (simp add: enhanceInit_def enhanceStep_def textOnly_def Let_def js_def newline_def
      substring_def substringFrom_def trim_def trimStart_def trimEnd_def isWhiteSpace_def)

lemma buy_milk_finish:
  "enhanceFinish
     \<lparr> accumulatedResponseText = js ''Buy milk'' @ newline # js ''Remember the reusable bags.'',
       finalTitle = js ''Buy milk'',
       finalDescription = js ''Remember the reusable bags.'',
       titleSent = True,
       firstNewlineIndex = 8 \<rparr>
   = (\<lparr> refinedTitle = js ''Buy milk'', refinedDescription = js ''Remember the reusable bags.'' \<rparr>,
      [TitleCandidate (js ''Buy milk''),
       DescriptionCandidate (js ''Remember the reusable bags.'')])"
  by (simp add: enhanceFinish_def finalSplit_def Let_def js_def newline_def
      substring_def substringFrom_def trim_def trimStart_def trimEnd_def isWhiteSpace_def)

lemma buy_milk_run:
  assumes "configured API_KEY"
  shows "enhanceTaskWithAIStream API_KEY ct cd
           \<lparr> chunks = [textOnly (js ''Buy milk'' @ [newline]), textOnly (js ''Remember ''),
                        textOnly (js ''the reusable bags.'')],
             failure = None \<rparr>
         = ([TitleCandidate (js ''Buy milk''), DescriptionCandidate [],
             DescriptionCandidate (js ''Remember ''),
             DescriptionCandidate (js ''Remember the reusable bags.''),
             TitleCandidate (js ''Buy milk''),
             DescriptionCandidate (js ''Remember the reusable bags.'')],
            Inr \<lparr> refinedTitle = js ''Buy milk'',
                  refinedDescription = js ''Remember the reusable bags.'' \<rparr>)"
  using assms
  by (simp add: enhanceTaskWithAIStream_def buy_milk_loop buy_milk_finish del: enhanceLoop.simps)

text \<open>
  C2. While the stream is consumed, the chunk that delivers a text fragment makes exactly
  these callbacks: the title callback alone, with the whole trimmed accumulation, as long as
  the accumulation holds no newline; the title callback with the trimmed text before the
  newline and then the body callback with the untrimmed text after it, on the fragment that
  brings the first newline; the body callback alone, with the untrimmed text after the first
  newline, on every later fragment. The callbacks of a call whose stream begins with these
  chunks begin with the callbacks of the loop on them, whatever follows.
  For the fragments \<open>Buy milk\n\<close>, \<open>Remember \<close>, \<open>the reusable bags.\<close> the loop
  makes the four callbacks of the scenario, the closing code repeats the title and the
  final body, and the call returns the pair of the scenario.
\<close>

theorem enhance_streaming_callbacks:
  assumes "configured API_KEY" and "resp_text chunk = Some fragment"
  shows "snd (enhanceLoop (enhanceInit currentTitle currentDescription) (pre @ [chunk])) =
           snd (enhanceLoop (enhanceInit currentTitle currentDescription) pre) @
           (let before = streamText pre; acc = before @ fragment
            in if newline \<in> set before then
                 [DescriptionCandidate (drop 1 (dropWhile (\<lambda>x. x \<noteq> newline) acc))]
               else if newline \<in> set acc then
                 [TitleCandidate (trim (takeWhile (\<lambda>x. x \<noteq> newline) acc)),
                  DescriptionCandidate (drop 1 (dropWhile (\<lambda>x. x \<noteq> newline) acc))]
               else [TitleCandidate (trim acc)]) \<and>
         (\<exists>later.
            fst (enhanceTaskWithAIStream API_KEY currentTitle currentDescription
                   \<lparr> chunks = (pre @ [chunk]) @ post, failure = outcome \<rparr>)
              = snd (enhanceLoop (enhanceInit currentTitle currentDescription) (pre @ [chunk]))
                  @ later) \<and>
         enhanceTaskWithAIStream API_KEY currentTitle currentDescription
           \<lparr> chunks = [textOnly (js ''Buy milk'' @ [newline]), textOnly (js ''Remember ''),
                        textOnly (js ''the reusable bags.'')],
             failure = None \<rparr>
         = ([TitleCandidate (js ''Buy milk''), DescriptionCandidate [],
             DescriptionCandidate (js ''Remember ''),
             DescriptionCandidate (js ''Remember the reusable bags.''),
             TitleCandidate (js ''Buy milk''),
             DescriptionCandidate (js ''Remember the reusable bags.'')],
            Inr \<lparr> refinedTitle = js ''Buy milk'',
                  refinedDescription = js ''Remember the reusable bags.'' \<rparr>)"
proof (intro conjI)
  let ?init = "enhanceInit currentTitle currentDescription"
  have "snd (enhanceStep (fst (enhanceLoop ?init pre)) chunk) =
          (let before = streamText pre; acc = before @ fragment
            in if newline \<in> set before then
                 [DescriptionCandidate (drop 1 (dropWhile (\<lambda>x. x \<noteq> newline) acc))]
               else if newline \<in> set acc then
                 [TitleCandidate (trim (takeWhile (\<lambda>x. x \<noteq> newline) acc)),
                  DescriptionCandidate (drop 1 (dropWhile (\<lambda>x. x \<noteq> newline) acc))]
               else [TitleCandidate (trim acc)])"
    using enhanceStep_events[OF assms(2), of "fst (enhanceLoop ?init pre)"]
    by (simp only: enhanceLoop_init_state)
  then show "snd (enhanceLoop ?init (pre @ [chunk])) =
           snd (enhanceLoop ?init pre) @
           (let before = streamText pre; acc = before @ fragment
            in if newline \<in> set before then
                 [DescriptionCandidate (drop 1 (dropWhile (\<lambda>x. x \<noteq> newline) acc))]
               else if newline \<in> set acc then
                 [TitleCandidate (trim (takeWhile (\<lambda>x. x \<noteq> newline) acc)),
                  DescriptionCandidate (drop 1 (dropWhile (\<lambda>x. x \<noteq> newline) acc))]
               else [TitleCandidate (trim acc)])"
    by (simp only: enhanceLoop_snoc_events)
next
  show "\<exists>later.
            fst (enhanceTaskWithAIStream API_KEY currentTitle currentDescription
                   \<lparr> chunks = (pre @ [chunk]) @ post, failure = outcome \<rparr>)
              = snd (enhanceLoop (enhanceInit currentTitle currentDescription) (pre @ [chunk]))
                  @ later"
    using assms(1) by (rule enhance_trace_prefix)
next
  show "enhanceTaskWithAIStream API_KEY currentTitle currentDescription
           \<lparr> chunks = [textOnly (js ''Buy milk'' @ [newline]), textOnly (js ''Remember ''),
                        textOnly (js ''the reusable bags.'')],
             failure = None \<rparr>
         = ([TitleCandidate (js ''Buy milk''), DescriptionCandidate [],
             DescriptionCandidate (js ''Remember ''),
             DescriptionCandidate (js ''Remember the reusable bags.''),
             TitleCandidate (js ''Buy milk''),
             DescriptionCandidate (js ''Remember the reusable bags.'')],
            Inr \<lparr> refinedTitle = js ''Buy milk'',
                  refinedDescription = js ''Remember the reusable bags.'' \<rparr>)"
    using assms(1) by (rule buy_milk_run)
qed

theorem enhance_streaming_callbacks_witness:
  "configured (Some (js ''key'')) \<and>
   resp_text (textOnly (js ''Remember '')) = Some (js ''Remember '') \<and>
   snd (enhanceLoop (enhanceInit [] [])
          ([textOnly (js ''Buy milk'' @ [newline])] @ [textOnly (js ''Remember '')]))
     = snd (enhanceLoop (enhanceInit [] []) [textOnly (js ''Buy milk'' @ [newline])])
         @ [DescriptionCandidate (js ''Remember '')] \<and>
   snd (enhanceLoop (enhanceInit [] []) ([] @ [textOnly (js ''Buy milk'' @ [newline])]))
     = snd (enhanceLoop (enhanceInit [] []) [])
         @ [TitleCandidate (js ''Buy milk''), DescriptionCandidate []] \<and>
   snd (enhanceLoop (enhanceInit [] []) ([] @ [textOnly (js ''Buy '')]))
     = snd (enhanceLoop (enhanceInit [] []) []) @ [TitleCandidate (js ''Buy'')]"
proof -
  have key: "configured (Some (js ''key''))" by (simp add: configured_def js_def)
  have t2: "resp_text (textOnly (js ''Remember '')) = Some (js ''Remember '')"
    by (simp add: textOnly_def)
  have t1: "resp_text (textOnly (js ''Buy milk'' @ [newline])) = Some (js ''Buy milk'' @ [newline])"
    by (simp add: textOnly_def)
  have t0: "resp_text (textOnly (js ''Buy '')) = Some (js ''Buy '')"
    by (simp add: textOnly_def)
  have later: "snd (enhanceLoop (enhanceInit [] [])
          ([textOnly (js ''Buy milk'' @ [newline])] @ [textOnly (js ''Remember '')]))
     = snd (enhanceLoop (enhanceInit [] []) [textOnly (js ''Buy milk'' @ [newline])])
         @ [DescriptionCandidate (js ''Remember '')]"
    using enhance_streaming_callbacks[OF key t2, where currentTitle = "[]" and currentDescription = "[]"
        and pre = "[textOnly (js ''Buy milk'' @ [newline])]"]
    by (simp add: streamText_def textOnly_def js_def newline_def Let_def del: enhanceLoop.simps)
  have first: "snd (enhanceLoop (enhanceInit [] []) ([] @ [textOnly (js ''Buy milk'' @ [newline])]))
     = snd (enhanceLoop (enhanceInit [] []) [])
         @ [TitleCandidate (js ''Buy milk''), DescriptionCandidate []]"
    using enhance_streaming_callbacks[OF key t1, where currentTitle = "[]" and currentDescription = "[]"
        and pre = "[]"]
    by (simp add: streamText_def js_def newline_def Let_def trim_def trimStart_def trimEnd_def
        isWhiteSpace_def del: enhanceLoop.simps)
  have none: "snd (enhanceLoop (enhanceInit [] []) ([] @ [textOnly (js ''Buy '')]))
     = snd (enhanceLoop (enhanceInit [] []) []) @ [TitleCandidate (js ''Buy'')]"
    using enhance_streaming_callbacks[OF key t0, where currentTitle = "[]" and currentDescription = "[]"
        and pre = "[]"]
    by (simp add: streamText_def js_def newline_def Let_def trim_def trimStart_def trimEnd_def
        isWhiteSpace_def del: enhanceLoop.simps)
  from key t2 later first none show ?thesis by blast
qed

text \<open>
  C3. When the stream completes, the call ends with the body callback on the final body.
  Just before it the title callback is made with the final title exactly when a newline
  appeared in the accumulated text (the title was sent at its discovery and is sent again)
  or the final title is not empty. When no newline appeared and the accumulated text is
  empty or only white space, the closing code does not call the title callback.
\<close>

theorem enhance_closing_callbacks:
  assumes "configured API_KEY" and "failure stream = None"
  shows "\<exists>r. enhanceTaskWithAIStream API_KEY currentTitle currentDescription stream =
           (snd (enhanceLoop (enhanceInit currentTitle currentDescription) (chunks stream)) @
            (if newline \<in> set (streamText (chunks stream)) \<or> refinedTitle r \<noteq> []
             then [TitleCandidate (refinedTitle r)] else []) @
            [DescriptionCandidate (refinedDescription r)],
            Inr r) \<and>
           (newline \<notin> set (streamText (chunks stream)) \<longrightarrow>
              (refinedTitle r = [] \<longleftrightarrow> list_all isWhiteSpace (streamText (chunks stream)))) \<and>
           (newline \<notin> set (streamText (chunks stream)) \<and>
            list_all isWhiteSpace (streamText (chunks stream)) \<longrightarrow>
              enhanceTaskWithAIStream API_KEY currentTitle currentDescription stream =
                (snd (enhanceLoop (enhanceInit currentTitle currentDescription) (chunks stream)) @
                 [DescriptionCandidate []],
                 Inr \<lparr> refinedTitle = [], refinedDescription = [] \<rparr>))"
proof -
  let ?acc = "streamText (chunks stream)"
  let ?loop = "snd (enhanceLoop (enhanceInit currentTitle currentDescription) (chunks stream))"
  let ?st = "fst (enhanceLoop (enhanceInit currentTitle currentDescription) (chunks stream))"
  let ?r = "finalSplit ?acc"
  have fin: "enhanceFinish ?st =
               (?r, (if newline \<in> set ?acc \<or> refinedTitle ?r \<noteq> []
                     then [TitleCandidate (refinedTitle ?r)] else []) @
                    [DescriptionCandidate (refinedDescription ?r)])"
    by (simp add: enhanceFinish_def Let_def enhanceLoop_init_state)
  have "enhanceTaskWithAIStream API_KEY currentTitle currentDescription stream =
          (?loop @ snd (enhanceFinish ?st), Inr (fst (enhanceFinish ?st)))"
    using assms by (simp add: enhanceTaskWithAIStream_def split_beta Let_def)
  then have run: "enhanceTaskWithAIStream API_KEY currentTitle currentDescription stream =
          (?loop @
            (if newline \<in> set ?acc \<or> refinedTitle ?r \<noteq> []
             then [TitleCandidate (refinedTitle ?r)] else []) @
            [DescriptionCandidate (refinedDescription ?r)],
           Inr ?r)"
    unfolding fin by simp
  have blank: "newline \<notin> set ?acc \<longrightarrow> (refinedTitle ?r = [] \<longleftrightarrow> list_all isWhiteSpace ?acc)"
    by (simp add: finalSplit_no_newline trim_empty_iff)
  have silent: "newline \<notin> set ?acc \<and> list_all isWhiteSpace ?acc \<longrightarrow>
          enhanceTaskWithAIStream API_KEY currentTitle currentDescription stream =
            (?loop @ [DescriptionCandidate []],
             Inr \<lparr> refinedTitle = [], refinedDescription = [] \<rparr>)"
  proof
    assume a: "newline \<notin> set ?acc \<and> list_all isWhiteSpace ?acc"
    then have "?r = \<lparr> refinedTitle = [], refinedDescription = [] \<rparr>"
      by (simp add: finalSplit_no_newline trim_empty_iff)
    with a show "enhanceTaskWithAIStream API_KEY currentTitle currentDescription stream =
            (?loop @ [DescriptionCandidate []],
             Inr \<lparr> refinedTitle = [], refinedDescription = [] \<rparr>)"
      unfolding run by simp
  qed
  from run blank silent show ?thesis by blast
qed

theorem enhance_closing_callbacks_witness:
  "configured (Some (js ''key'')) \<and>
   failure \<lparr> chunks = [textOnly (js ''a'' @ [newline] @ js ''b'')], failure = None \<rparr> = None \<and>
   enhanceTaskWithAIStream (Some (js ''key'')) [] []
       \<lparr> chunks = [textOnly (js ''a'' @ [newline] @ js ''b'')], failure = None \<rparr>
     = ([TitleCandidate (js ''a''), DescriptionCandidate (js ''b''),
         TitleCandidate (js ''a''), DescriptionCandidate (js ''b'')],
        Inr \<lparr> refinedTitle = js ''a'', refinedDescription = js ''b'' \<rparr>) \<and>
   failure \<lparr> chunks = [textOnly (js ''  '')], failure = None \<rparr> = None \<and>
   newline \<notin> set (streamText (chunks \<lparr> chunks = [textOnly (js ''  '')], failure = None \<rparr>)) \<and>
   list_all isWhiteSpace (streamText (chunks \<lparr> chunks = [textOnly (js ''  '')], failure = None \<rparr>)) \<and>
   enhanceTaskWithAIStream (Some (js ''key'')) [] []
       \<lparr> chunks = [textOnly (js ''  '')], failure = None \<rparr>
     = ([TitleCandidate [], DescriptionCandidate []],
        Inr \<lparr> refinedTitle = [], refinedDescription = [] \<rparr>)"
proof -
  let ?s = "\<lparr> chunks = [textOnly (js ''a'' @ [newline] @ js ''b'')], failure = None \<rparr>"
  let ?w = "\<lparr> chunks = [textOnly (js ''  '')], failure = None \<rparr>"
  have key: "configured (Some (js ''key''))" by (simp add: configured_def js_def)
  have fl: "failure ?s = None" by simp
  have flw: "failure ?w = None" by simp
  have res: "snd (enhanceTaskWithAIStream (Some (js ''key'')) [] [] ?s)
               = Inr \<lparr> refinedTitle = js ''a'', refinedDescription = js ''b'' \<rparr>"
    using key
    by (simp add: enhanceTaskWithAIStream_def enhanceInit_def enhanceStep_def enhanceFinish_def
        finalSplit_def textOnly_def Let_def js_def newline_def substring_def substringFrom_def
        trim_def trimStart_def trimEnd_def isWhiteSpace_def)
  from enhance_closing_callbacks[OF key fl, of "[]" "[]"] obtain r where
    run: "enhanceTaskWithAIStream (Some (js ''key'')) [] [] ?s =
            (snd (enhanceLoop (enhanceInit [] []) (chunks ?s)) @
             (if newline \<in> set (streamText (chunks ?s)) \<or> refinedTitle r \<noteq> []
              then [TitleCandidate (refinedTitle r)] else []) @
             [DescriptionCandidate (refinedDescription r)],
             Inr r)"
    by blast
  with res have r: "r = \<lparr> refinedTitle = js ''a'', refinedDescription = js ''b'' \<rparr>"
    by simp
  have loop: "snd (enhanceLoop (enhanceInit [] []) (chunks ?s))
                = [TitleCandidate (js ''a''), DescriptionCandidate (js ''b'')]"
    by (simp add: enhanceInit_def enhanceStep_def textOnly_def Let_def js_def newline_def
        substring_def substringFrom_def trim_def trimStart_def trimEnd_def isWhiteSpace_def)
  have nl: "newline \<in> set (streamText (chunks ?s))"
    by (simp add: streamText_def textOnly_def)
  from run have one: "enhanceTaskWithAIStream (Some (js ''key'')) [] [] ?s
     = ([TitleCandidate (js ''a''), DescriptionCandidate (js ''b''),
         TitleCandidate (js ''a''), DescriptionCandidate (js ''b'')],
        Inr \<lparr> refinedTitle = js ''a'', refinedDescription = js ''b'' \<rparr>)"
    unfolding loop r using nl by simp
  have nonl: "newline \<notin> set (streamText (chunks ?w))"
    by (simp add: streamText_def textOnly_def js_def newline_def)
  have ws: "list_all isWhiteSpace (streamText (chunks ?w))"
    by (simp add: streamText_def textOnly_def js_def isWhiteSpace_def)
  have loopw: "snd (enhanceLoop (enhanceInit [] []) (chunks ?w)) = [TitleCandidate []]"
    by (simp add: enhanceInit_def enhanceStep_def textOnly_def Let_def js_def newline_def
        trim_def trimStart_def trimEnd_def isWhiteSpace_def)
  from enhance_closing_callbacks[OF key flw, of "[]" "[]"] nonl ws
  have "enhanceTaskWithAIStream (Some (js ''key'')) [] [] ?w =
          (snd (enhanceLoop (enhanceInit [] []) (chunks ?w)) @ [DescriptionCandidate []],
           Inr \<lparr> refinedTitle = [], refinedDescription = [] \<rparr>)"
    by blast
  then have two: "enhanceTaskWithAIStream (Some (js ''key'')) [] [] ?w
     = ([TitleCandidate [], DescriptionCandidate []],
        Inr \<lparr> refinedTitle = [], refinedDescription = [] \<rparr>)"
    unfolding loopw by simp
  from key fl one flw nonl ws two show ?thesis by blast
qed

theorem enhance_closing_title_counterexample:
  "enhanceTaskWithAIStream (Some (js ''key'')) (js ''old title'') (js ''old text'')
       \<lparr> chunks = [], failure = None \<rparr>
     = ([DescriptionCandidate []], Inr \<lparr> refinedTitle = [], refinedDescription = [] \<rparr>) \<and>
   enhanceTaskWithAIStream (Some (js ''key'')) (js ''old title'') (js ''old text'')
       \<lparr> chunks = [textOnly (js ''  '')], failure = None \<rparr>
     = ([TitleCandidate []] @ [DescriptionCandidate []],
        Inr \<lparr> refinedTitle = [], refinedDescription = [] \<rparr>)"
  by (simp add: enhanceTaskWithAIStream_def configured_def enhanceInit_def enhanceStep_def
      enhanceFinish_def finalSplit_def textOnly_def Let_def js_def newline_def
      trim_def trimStart_def trimEnd_def isWhiteSpace_def)

text \<open>
  C4. A completed session of \<open>streamContextualInfoWithAI\<close> that delivered at least one
  chunk calls \<open>onSources\<close> exactly once, after all chunk callbacks, with the sources
  extracted from the last chunk: the empty list when that chunk has no citation metadata or
  no candidate passes. A completed session that delivered no chunk makes no callback at all.
\<close>

theorem context_sources_on_success:
  assumes "configured API_KEY" and "failure stream = None"
  shows "(chunks stream \<noteq> [] \<longrightarrow>
            (\<exists>srcs.
               fst (streamContextualInfoWithAI API_KEY stream)
                 = map Chunk (List.map_filter resp_text (chunks stream)) @ [Sources srcs] \<and>
               countSources (fst (streamContextualInfoWithAI API_KEY stream)) = 1 \<and>
               srcs = (case groundingChunksOf (last (chunks stream)) of
                         None \<Rightarrow> []
                       | Some gcs \<Rightarrow> List.map_filter reportedSource gcs) \<and>
               ((\<forall>gcs. groundingChunksOf (last (chunks stream)) = Some gcs \<longrightarrow>
                        (\<forall>g \<in> set gcs. reportedSource g = None)) \<longrightarrow> srcs = []))) \<and>
         (chunks stream = [] \<longrightarrow> streamContextualInfoWithAI API_KEY stream = ([], Inr []))"
proof (intro conjI impI)
  assume ne: "chunks stream \<noteq> []"
  let ?srcs = "case groundingChunksOf (last (chunks stream)) of
                 None \<Rightarrow> []
               | Some gcs \<Rightarrow> List.map_filter reportedSource gcs"
  have report: "sourcesOnSuccess (Some (last (chunks stream))) = [Sources ?srcs]"
    by (simp add: sourcesOnSuccess_def extractSources_reported split: option.splits)
  have trace: "fst (streamContextualInfoWithAI API_KEY stream)
                 = map Chunk (List.map_filter resp_text (chunks stream)) @ [Sources ?srcs]"
    using assms ne report by (simp add: context_run Let_def)
  have count: "countSources (fst (streamContextualInfoWithAI API_KEY stream)) = 1"
    unfolding trace by (simp add: countSources_append countSources_chunks) (simp add: countSources_def)
  have empty: "(\<forall>gcs. groundingChunksOf (last (chunks stream)) = Some gcs \<longrightarrow>
                   (\<forall>g \<in> set gcs. reportedSource g = None)) \<longrightarrow> ?srcs = []"
  proof
    assume none: "\<forall>gcs. groundingChunksOf (last (chunks stream)) = Some gcs \<longrightarrow>
                   (\<forall>g \<in> set gcs. reportedSource g = None)"
    show "?srcs = []"
    proof (cases "groundingChunksOf (last (chunks stream))")
      case None
      then show ?thesis by simp
    next
      case (Some gcs)
      with none have "\<forall>g \<in> set gcs. reportedSource g = None" by simp
      then have "List.map_filter reportedSource gcs = []"
        by (induction gcs) simp_all
      with Some show ?thesis by simp
    qed
  qed
  from trace count empty
  show "\<exists>srcs.
               fst (streamContextualInfoWithAI API_KEY stream)
                 = map Chunk (List.map_filter resp_text (chunks stream)) @ [Sources srcs] \<and>
               countSources (fst (streamContextualInfoWithAI API_KEY stream)) = 1 \<and>
               srcs = (case groundingChunksOf (last (chunks stream)) of
                         None \<Rightarrow> []
                       | Some gcs \<Rightarrow> List.map_filter reportedSource gcs) \<and>
               ((\<forall>gcs. groundingChunksOf (last (chunks stream)) = Some gcs \<longrightarrow>
                        (\<forall>g \<in> set gcs. reportedSource g = None)) \<longrightarrow> srcs = [])"
    by blast
next
  assume "chunks stream = []"
  with assms show "streamContextualInfoWithAI API_KEY stream = ([], Inr [])"
    by (simp add: context_run sourcesOnSuccess_def streamText_def)
qed

theorem context_sources_on_success_witness:
  "configured (Some (js ''key'')) \<and>
   failure \<lparr> chunks = [textOnly (js ''ab''), groundedResponse None [webChunk (js ''ftp://x'') None]],
             failure = None \<rparr> = None \<and>
   fst (streamContextualInfoWithAI (Some (js ''key''))
          \<lparr> chunks = [textOnly (js ''ab''), groundedResponse None [webChunk (js ''ftp://x'') None]],
            failure = None \<rparr>)
     = [Chunk (js ''ab''), Sources []] \<and>
   fst (streamContextualInfoWithAI (Some (js ''key''))
          \<lparr> chunks = [textOnly (js ''ab'')], failure = None \<rparr>)
     = [Chunk (js ''ab''), Sources []]"
proof -
  let ?s = "\<lparr> chunks = [textOnly (js ''ab''), groundedResponse None [webChunk (js ''ftp://x'') None]],
             failure = None \<rparr>"
  let ?s' = "\<lparr> chunks = [textOnly (js ''ab'')], failure = None \<rparr>"
  have key: "configured (Some (js ''key''))" by (simp add: configured_def js_def)
  have fl: "failure ?s = None" by simp
  have fl': "failure ?s' = None" by simp
  have ftp: "reportedSource (webChunk (js ''ftp://x'') None) = None"
    by (simp add: reportedSource_def webChunk_def js_def)
  have "fst (streamContextualInfoWithAI (Some (js ''key'')) ?s) = [Chunk (js ''ab''), Sources []]"
    using context_sources_on_success[OF key fl] ftp
    by (simp add: textOnly_def groundedResponse_def groundingChunksOf_def)
  moreover
  have "fst (streamContextualInfoWithAI (Some (js ''key'')) ?s') = [Chunk (js ''ab''), Sources []]"
    using context_sources_on_success[OF key fl']
    by (simp add: textOnly_def groundingChunksOf_def)
  ultimately show ?thesis using key fl by blast
qed

theorem context_sources_empty_stream_counterexample:
  "streamContextualInfoWithAI (Some (js ''key'')) \<lparr> chunks = [], failure = None \<rparr> = ([], Inr []) \<and>
   countSources (fst (streamContextualInfoWithAI (Some (js ''key''))
                        \<lparr> chunks = [], failure = None \<rparr>)) = 0"
  by (simp add: streamContextualInfoWithAI_def configured_def js_def sourcesOnSuccess_def
      countSources_def)

text \<open>
  C5. The extraction keeps a candidate exactly when it has a \<open>web\<close> reference whose
  \<open>uri\<close> is present, non-empty and begins with the four characters \<open>http\<close>, and reports
  for it the \<open>uri\<close> with the candidate's title, or with the \<open>uri\<close> as title when the title
  is missing or empty. Every non-empty \<open>uri\<close> that begins with an HTTP(S) scheme is
  therefore kept. Both the success path and the error path report this list for the last
  chunk's candidates. Of the candidates \<open>ftp://x\<close> and \<open>https://y\<close> only the second is
  reported, under its \<open>uri\<close> as title.
\<close>

theorem source_extraction:
  "extractSources gcs = List.map_filter reportedSource gcs \<and>
   (keepsWeb w \<longleftrightarrow>
      (\<exists>r u. w = Some r \<and> web_uri r = Some u \<and> u \<noteq> [] \<and> take 4 u = js ''http'')) \<and>
   (u \<noteq> [] \<and> beginsWithHttpScheme u \<longrightarrow>
      reportedSource (webChunk u None) = Some \<lparr> src_uri = u, src_title = u \<rparr> \<and>
      reportedSource (webChunk u (Some [])) = Some \<lparr> src_uri = u, src_title = u \<rparr> \<and>
      (t \<noteq> [] \<longrightarrow>
         reportedSource (webChunk u (Some t)) = Some \<lparr> src_uri = u, src_title = t \<rparr>)) \<and>
   (configured API_KEY \<and> gcs \<noteq> [] \<longrightarrow>
      fst (streamContextualInfoWithAI API_KEY
             \<lparr> chunks = pre @ [groundedResponse None gcs], failure = None \<rparr>)
        = map Chunk (List.map_filter resp_text pre) @ [Sources (extractSources gcs)] \<and>
      fst (streamContextualInfoWithAI API_KEY
             \<lparr> chunks = pre @ [groundedResponse None gcs], failure = Some e \<rparr>)
        = map Chunk (List.map_filter resp_text pre) @ [Sources (extractSources gcs)]) \<and>
   extractSources [webChunk (js ''ftp://x'') None, webChunk (js ''https://y'') None]
     = [\<lparr> src_uri = js ''https://y'', src_title = js ''https://y'' \<rparr>]"
proof (intro conjI)
  show "extractSources gcs = List.map_filter reportedSource gcs"
    by (rule extractSources_reported)
next
  show "keepsWeb w \<longleftrightarrow>
      (\<exists>r u. w = Some r \<and> web_uri r = Some u \<and> u \<noteq> [] \<and> take 4 u = js ''http'')"
    by (auto simp add: keepsWeb_def startsWith_http split: option.splits)
next
  show "u \<noteq> [] \<and> beginsWithHttpScheme u \<longrightarrow>
      reportedSource (webChunk u None) = Some \<lparr> src_uri = u, src_title = u \<rparr> \<and>
      reportedSource (webChunk u (Some [])) = Some \<lparr> src_uri = u, src_title = u \<rparr> \<and>
      (t \<noteq> [] \<longrightarrow>
         reportedSource (webChunk u (Some t)) = Some \<lparr> src_uri = u, src_title = t \<rparr>)"
  proof
    assume a: "u \<noteq> [] \<and> beginsWithHttpScheme u"
    have l5: "length (js ''http:'') = 5" and l6: "length (js ''https:'') = 6"
      by (simp_all add: js_def)
    from a have "take 5 u = js ''http:'' \<or> take 6 u = js ''https:''"
      unfolding beginsWithHttpScheme_def startsWith_def l5 l6 by simp
    then have "take 4 u = js ''http''"
    proof
      assume "take 5 u = js ''http:''"
      then have "take 4 (take 5 u) = take 4 (js ''http:'')" by simp
      then show ?thesis by (simp add: js_def)
    next
      assume "take 6 u = js ''https:''"
      then have "take 4 (take 6 u) = take 4 (js ''https:'')" by simp
      then show ?thesis by (simp add: js_def)
    qed
    with a show "reportedSource (webChunk u None) = Some \<lparr> src_uri = u, src_title = u \<rparr> \<and>
      reportedSource (webChunk u (Some [])) = Some \<lparr> src_uri = u, src_title = u \<rparr> \<and>
      (t \<noteq> [] \<longrightarrow>
         reportedSource (webChunk u (Some t)) = Some \<lparr> src_uri = u, src_title = t \<rparr>)"
      by (simp add: reportedSource_def webChunk_def)
  qed
next
  show "configured API_KEY \<and> gcs \<noteq> [] \<longrightarrow>
      fst (streamContextualInfoWithAI API_KEY
             \<lparr> chunks = pre @ [groundedResponse None gcs], failure = None \<rparr>)
        = map Chunk (List.map_filter resp_text pre) @ [Sources (extractSources gcs)] \<and>
      fst (streamContextualInfoWithAI API_KEY
             \<lparr> chunks = pre @ [groundedResponse None gcs], failure = Some e \<rparr>)
        = map Chunk (List.map_filter resp_text pre) @ [Sources (extractSources gcs)]"
  proof
    assume a: "configured API_KEY \<and> gcs \<noteq> []"
    have g: "groundingChunksOf (groundedResponse None gcs) = Some gcs"
      by (simp add: groundingChunksOf_def groundedResponse_def)
    have t: "List.map_filter resp_text (pre @ [groundedResponse None gcs])
               = List.map_filter resp_text pre"
      by (simp add: List.map_filter_def groundedResponse_def)
    from a g show "fst (streamContextualInfoWithAI API_KEY
             \<lparr> chunks = pre @ [groundedResponse None gcs], failure = None \<rparr>)
        = map Chunk (List.map_filter resp_text pre) @ [Sources (extractSources gcs)] \<and>
      fst (streamContextualInfoWithAI API_KEY
             \<lparr> chunks = pre @ [groundedResponse None gcs], failure = Some e \<rparr>)
        = map Chunk (List.map_filter resp_text pre) @ [Sources (extractSources gcs)]"
      by (simp add: context_run t sourcesOnSuccess_def sourcesOnError_def)
  qed
next
  show "extractSources [webChunk (js ''ftp://x'') None, webChunk (js ''https://y'') None]
     = [\<lparr> src_uri = js ''https://y'', src_title = js ''https://y'' \<rparr>]"
    by (simp add: extractSources_def keepsWeb_def toContextualSource_def Let_def webChunk_def
        startsWith_def js_def)
qed

theorem source_extraction_witness:
  "js ''https://y'' \<noteq> [] \<and> beginsWithHttpScheme (js ''https://y'') \<and>
   reportedSource (webChunk (js ''https://y'') None)
     = Some \<lparr> src_uri = js ''https://y'', src_title = js ''https://y'' \<rparr> \<and>
   js ''Y'' \<noteq> [] \<and>
   reportedSource (webChunk (js ''https://y'') (Some (js ''Y'')))
     = Some \<lparr> src_uri = js ''https://y'', src_title = js ''Y'' \<rparr> \<and>
   configured (Some (js ''key'')) \<and> [webChunk (js ''ftp://x'') None] \<noteq> [] \<and>
   fst (streamContextualInfoWithAI (Some (js ''key''))
          \<lparr> chunks = [] @ [groundedResponse None [webChunk (js ''ftp://x'') None]],
            failure = Some (Thrown 0 None) \<rparr>)
     = map Chunk (List.map_filter resp_text []) @
       [Sources (extractSources [webChunk (js ''ftp://x'') None])]"
proof -
  have u: "js ''https://y'' \<noteq> [] \<and> beginsWithHttpScheme (js ''https://y'')"
    by (simp add: beginsWithHttpScheme_def startsWith_def js_def)
  have t: "js ''Y'' \<noteq> []" by (simp add: js_def)
  have key: "configured (Some (js ''key'')) \<and> [webChunk (js ''ftp://x'') None] \<noteq> []"
    by (simp add: configured_def js_def)
  note inst = source_extraction[of "[webChunk (js ''ftp://x'') None]" None "js ''https://y''"
      "js ''Y''" "Some (js ''key'')" "[]" "Thrown 0 None"]
  from inst u t key show ?thesis by (elim conjE impE) simp_all
qed

theorem source_extraction_scheme_counterexample:
  "fst (streamContextualInfoWithAI (Some (js ''key''))
          \<lparr> chunks = [groundedResponse None [webChunk (js ''httpx://y'') None]],
            failure = None \<rparr>)
     = [Sources [\<lparr> src_uri = js ''httpx://y'', src_title = js ''httpx://y'' \<rparr>]] \<and>
   \<not> beginsWithHttpScheme (js ''httpx://y'')"
  by (simp add: streamContextualInfoWithAI_def configured_def sourcesOnSuccess_def
      groundingChunksOf_def groundedResponse_def extractSources_def keepsWeb_def
      toContextualSource_def Let_def webChunk_def beginsWithHttpScheme_def startsWith_def js_def)

text \<open>
  C10. Whatever the stream delivers and however it ends, one call of
  \<open>streamContextualInfoWithAI\<close> calls \<open>onSources\<close> at most once.
\<close>

theorem context_sources_at_most_once:
  "countSources (fst (streamContextualInfoWithAI API_KEY stream)) \<le> 1"
proof (cases "configured API_KEY")
  case False
  then show ?thesis by (simp add: streamContextualInfoWithAI_def countSources_def)
next
  case True
  let ?final = "if chunks stream = [] then None else Some (last (chunks stream))"
  show ?thesis
  proof (cases "failure stream")
    case None
    have "countSources (sourcesOnSuccess ?final) \<le> 1"
      by (simp only: countSources_success split: if_splits) simp
    with None True show ?thesis
      by (simp add: context_run countSources_append countSources_chunks Let_def
          del: List.map_filter_simps)
  next
    case (Some e)
    have "countSources (sourcesOnError ?final) \<le> 1" by (rule countSources_error)
    with Some True show ?thesis
      by (simp add: context_run countSources_append countSources_chunks Let_def
          del: List.map_filter_simps)
  qed
qed

theorem context_sources_at_most_once_witness:
  "countSources (fst (streamContextualInfoWithAI (Some (js ''key''))
      \<lparr> chunks = [groundedResponse (Some (js ''ab'')) [webChunk (js ''https://y'') None]],
        failure = Some (Thrown 0 (Some (js ''connection reset''))) \<rparr>)) \<le> 1 \<and>
   fst (streamContextualInfoWithAI (Some (js ''key''))
      \<lparr> chunks = [groundedResponse (Some (js ''ab'')) [webChunk (js ''https://y'') None]],
        failure = Some (Thrown 0 (Some (js ''connection reset''))) \<rparr>)
     = [Chunk (js ''ab''),
        Sources [\<lparr> src_uri = js ''https://y'', src_title = js ''https://y'' \<rparr>]]"
proof -
  have "fst (streamContextualInfoWithAI (Some (js ''key''))
      \<lparr> chunks = [groundedResponse (Some (js ''ab'')) [webChunk (js ''https://y'') None]],
        failure = Some (Thrown 0 (Some (js ''connection reset''))) \<rparr>)
     = [Chunk (js ''ab''),
        Sources [\<lparr> src_uri = js ''https://y'', src_title = js ''https://y'' \<rparr>]]"
    by (simp add: streamContextualInfoWithAI_def configured_def sourcesOnError_def
      groundingChunksOf_def groundedResponse_def extractSources_def keepsWeb_def
      toContextualSource_def Let_def webChunk_def startsWith_def js_def)
  with context_sources_at_most_once[of "Some (js ''key'')"
      "\<lparr> chunks = [groundedResponse (Some (js ''ab'')) [webChunk (js ''https://y'') None]],
        failure = Some (Thrown 0 (Some (js ''connection reset''))) \<rparr>"]
  show ?thesis by blast
qed

text \<open>
  C6. When the response text parses as a JSON object, \<open>parseTaskStringWithAI\<close> returns that
  object with two properties rewritten. A truthy \<open>priority\<close> that is not one of the literals
  \<open>Low\<close>, \<open>Medium\<close>, \<open>High\<close> becomes \<open>null\<close>; a missing or falsy \<open>priority\<close> (\<open>null\<close>,
  \<open>false\<close>, \<open>0\<close>, the empty string) is left as it is. A \<open>tags\<close> that is not an array
  becomes the empty array. So the returned \<open>priority\<close> is missing, \<open>null\<close>, a literal or a
  falsy value, the returned \<open>tags\<close> is always an array, and no other property changes.
\<close>

theorem parse_coercion:
  assumes "configured API_KEY" and "resp_text response = Some t"
    and "JSON_parse rt (stripFence (trim t)) = Inr (JObject props)"
  shows "\<exists>props'.
           parseTaskStringWithAI API_KEY rt (Inr response) = Inr (TaskObject props') \<and>
           map_of props' priorityKey =
             (case map_of props priorityKey of
                None \<Rightarrow> None
              | Some p \<Rightarrow> if truthy p \<and> p \<notin> set priorityLiterals then Some JNull else Some p) \<and>
           (case map_of props' priorityKey of
              None \<Rightarrow> True
            | Some p \<Rightarrow> p = JNull \<or> p \<in> set priorityLiterals \<or> \<not> truthy p) \<and>
           map_of props' tagsKey =
             (case map_of props tagsKey of
                Some (JArray xs) \<Rightarrow> Some (JArray xs)
              | _ \<Rightarrow> Some (JArray [])) \<and>
           (\<exists>xs. map_of props' tagsKey = Some (JArray xs)) \<and>
           (\<forall>k. k \<noteq> priorityKey \<and> k \<noteq> tagsKey \<longrightarrow> map_of props' k = map_of props k)"
proof -
  let ?props' = "coerceTags (coercePriority props)"
  have run: "parseTaskStringWithAI API_KEY rt (Inr response) = Inr (TaskObject ?props')"
    using assms by (rule parse_object_result)
  have prio: "map_of ?props' priorityKey =
             (case map_of props priorityKey of
                None \<Rightarrow> None
              | Some p \<Rightarrow> if truthy p \<and> p \<notin> set priorityLiterals then Some JNull else Some p)"
    by (simp add: map_of_coerceTags map_of_coercePriority priorityKey_neq_tagsKey)
  have range: "case map_of ?props' priorityKey of
              None \<Rightarrow> True
            | Some p \<Rightarrow> p = JNull \<or> p \<in> set priorityLiterals \<or> \<not> truthy p"
    unfolding prio by (auto split: option.splits)
  have tags: "map_of ?props' tagsKey =
             (case map_of props tagsKey of
                Some (JArray xs) \<Rightarrow> Some (JArray xs)
              | _ \<Rightarrow> Some (JArray []))"
    using priorityKey_neq_tagsKey
    by (simp add: map_of_coerceTags map_of_coercePriority)
  have arr: "\<exists>xs. map_of ?props' tagsKey = Some (JArray xs)"
    unfolding tags by (simp split: option.splits json.splits)
  have others: "\<forall>k. k \<noteq> priorityKey \<and> k \<noteq> tagsKey \<longrightarrow> map_of ?props' k = map_of props k"
    by (simp add: map_of_coerceTags map_of_coercePriority)
  from run prio range tags arr others show ?thesis by blast
qed

theorem parse_coercion_witness:
  "configured (Some (js ''key'')) \<and>
   resp_text (textOnly (js ''{'' @ quoted (js ''priority'') @ js '':'' @ quoted (js ''Urgent'') @ js ''}''))
     = Some (js ''{'' @ quoted (js ''priority'') @ js '':'' @ quoted (js ''Urgent'') @ js ''}'') \<and>
   parseTaskStringWithAI (Some (js ''key''))
     (exampleRuntime
        [(js ''{'' @ quoted (js ''priority'') @ js '':'' @ quoted (js ''Urgent'') @ js ''}'',
          JObject [(js ''priority'', JString (js ''Urgent''))])])
     (Inr (textOnly (js ''{'' @ quoted (js ''priority'') @ js '':'' @ quoted (js ''Urgent'') @ js ''}'')))
   = Inr (TaskObject [(js ''priority'', JNull), (js ''tags'', JArray [])])"
proof -
  let ?t = "js ''{'' @ quoted (js ''priority'') @ js '':'' @ quoted (js ''Urgent'') @ js ''}''"
  let ?rt = "exampleRuntime [(?t, JObject [(js ''priority'', JString (js ''Urgent''))])]"
  have key: "configured (Some (js ''key''))" by (simp add: configured_def js_def)
  have rtext: "resp_text (textOnly ?t) = Some ?t" by (simp add: textOnly_def)
  have strip: "stripFence (trim ?t) = ?t"
    by (simp add: stripFence_def fenceGroup2_def fence_def backtick_def quoted_def dquote_def
        trim_def trimStart_def trimEnd_def isWhiteSpace_def js_def Let_def)
  have parse: "JSON_parse ?rt (stripFence (trim ?t))
                 = Inr (JObject [(js ''priority'', JString (js ''Urgent''))])"
    unfolding strip by (simp add: exampleRuntime_def parseTable_def)
  from parse_coercion[OF key rtext parse] obtain props' where
    run: "parseTaskStringWithAI (Some (js ''key'')) ?rt (Inr (textOnly ?t)) = Inr (TaskObject props')"
    by blast
  have "parseTaskStringWithAI (Some (js ''key'')) ?rt (Inr (textOnly ?t))
          = Inr (TaskObject [(js ''priority'', JNull), (js ''tags'', JArray [])])"
    using key rtext parse
    by (simp add: parseTaskStringWithAI_def parsedResponse_def coerceParsed_def coercePriority_def
        coerceTags_def priorityKey_def tagsKey_def priorityLiterals_def js_def)
  with key rtext run show ?thesis by simp
qed

theorem parse_coercion_falsy_counterexample:
  "parseTaskStringWithAI (Some (js ''key''))
     (exampleRuntime
        [(js ''{'' @ quoted (js ''priority'') @ js '':'' @ quoted [] @ js ''}'',
          JObject [(js ''priority'', JString [])])])
     (Inr (textOnly (js ''{'' @ quoted (js ''priority'') @ js '':'' @ quoted [] @ js ''}'')))
   = Inr (TaskObject [(js ''priority'', JString []), (js ''tags'', JArray [])]) \<and>
   parseTaskStringWithAI (Some (js ''key''))
     (exampleRuntime
        [(js ''{'' @ quoted (js ''priority'') @ js '':0}'',
          JObject [(js ''priority'', JNumber (Finite 0))])])
     (Inr (textOnly (js ''{'' @ quoted (js ''priority'') @ js '':0}'')))
   = Inr (TaskObject [(js ''priority'', JNumber (Finite 0)), (js ''tags'', JArray [])])"
  by (simp add: parseTaskStringWithAI_def configured_def parsedResponse_def textOnly_def
      exampleRuntime_def parseTable_def stripFence_def fenceGroup2_def fence_def backtick_def
      quoted_def dquote_def trim_def trimStart_def trimEnd_def isWhiteSpace_def js_def Let_def
      coerceParsed_def coercePriority_def coerceTags_def priorityKey_def tagsKey_def)

text \<open>
  C7. For the response text \<open>[" Urgent Task"]\<close> the function returns the tag
  \<open>-urgent-task\<close>: the white space at the start of the element is replaced by a hyphen
  like the run inside it.
\<close>

theorem suggest_leading_whitespace:
  "suggestTagsWithAI (Some (js ''key''))
     (exampleRuntime
        [(js ''['' @ quoted (js '' Urgent Task'') @ js '']'', JArray [JString (js '' Urgent Task'')])])
     (Inr (textOnly (js ''['' @ quoted (js '' Urgent Task'') @ js '']'')))
   = Inr [js ''-urgent-task'']"
  by (simp add: suggestTagsWithAI_def configured_def parsedResponse_def textOnly_def
      exampleRuntime_def parseTable_def stripFence_def fenceGroup2_def fence_def backtick_def
      quoted_def dquote_def trim_def trimStart_def trimEnd_def isWhiteSpace_def js_def Let_def
      tagsOfParsed_def normalizeTag_def asciiLowerCase_def hyphen_def)

text \<open>
  C8. With the API key configured, an error raised by the transport reaches the caller
  of the three streaming operations as the identical value; \<open>streamContextualInfoWithAI\<close>
  first forwards the chunks it received and reports the sources of the last chunk when that
  chunk has citation candidates. \<open>parseTaskStringWithAI\<close> instead raises a new error whose
  message is \<open>Failed to parse task with AI.\<close>, followed by \<open> Details: \<close> and the
  original message when the original is an \<open>Error\<close>; \<open>suggestTagsWithAI\<close> raises a new
  error with the fixed message \<open>Failed to suggest tags with AI.\<close>.
\<close>

theorem transport_errors:
  assumes "configured API_KEY"
  shows "snd (enhanceTaskWithAIStream API_KEY currentTitle currentDescription
                \<lparr> chunks = cs, failure = Some e \<rparr>) = Inl e \<and>
         snd (streamSubTasksWithAI API_KEY \<lparr> chunks = cs, failure = Some e \<rparr>) = Inl e \<and>
         streamContextualInfoWithAI API_KEY \<lparr> chunks = cs, failure = Some e \<rparr>
           = (map Chunk (List.map_filter resp_text cs) @
              sourcesOnError (if cs = [] then None else Some (last cs)),
              Inl e) \<and>
         parseTaskStringWithAI API_KEY rt (Inl e)
           = Inl (NewError (js ''Failed to parse task with AI.'' @
                            (if instanceofError e then js '' Details: '' @ message e else []))) \<and>
         parseTaskStringWithAI API_KEY rt (Inl (Thrown i m)) \<noteq> Inl (Thrown i m) \<and>
         suggestTagsWithAI API_KEY rt (Inl e)
           = Inl (NewError (js ''Failed to suggest tags with AI.'')) \<and>
         suggestTagsWithAI API_KEY rt (Inl (Thrown i m)) \<noteq> Inl (Thrown i m)"
proof (intro conjI)
  show "snd (enhanceTaskWithAIStream API_KEY currentTitle currentDescription
                \<lparr> chunks = cs, failure = Some e \<rparr>) = Inl e"
    using assms by (simp add: enhanceTaskWithAIStream_def split_beta Let_def)
next
  show "snd (streamSubTasksWithAI API_KEY \<lparr> chunks = cs, failure = Some e \<rparr>) = Inl e"
    using assms by (simp add: streamSubTasksWithAI_def split_beta Let_def)
next
  show "streamContextualInfoWithAI API_KEY \<lparr> chunks = cs, failure = Some e \<rparr>
           = (map Chunk (List.map_filter resp_text cs) @
              sourcesOnError (if cs = [] then None else Some (last cs)),
              Inl e)"
    using assms by (simp add: context_run Let_def)
next
  show "parseTaskStringWithAI API_KEY rt (Inl e)
           = Inl (NewError (js ''Failed to parse task with AI.'' @
                            (if instanceofError e then js '' Details: '' @ message e else [])))"
    using assms
    by (simp add: parseTaskStringWithAI_def parsedResponse_def parseFailureMessage_def)
next
  show "parseTaskStringWithAI API_KEY rt (Inl (Thrown i m)) \<noteq> Inl (Thrown i m)"
    using assms by (simp add: parseTaskStringWithAI_def parsedResponse_def)
next
  show "suggestTagsWithAI API_KEY rt (Inl e)
           = Inl (NewError (js ''Failed to suggest tags with AI.''))"
    using assms by (simp add: suggestTagsWithAI_def parsedResponse_def suggestFailure_def)
next
  show "suggestTagsWithAI API_KEY rt (Inl (Thrown i m)) \<noteq> Inl (Thrown i m)"
    using assms by (simp add: suggestTagsWithAI_def parsedResponse_def suggestFailure_def)
qed

theorem transport_errors_witness:
  "configured (Some (js ''key'')) \<and>
   snd (enhanceTaskWithAIStream (Some (js ''key'')) [] []
          \<lparr> chunks = [textOnly (js ''ab'')], failure = Some (Thrown 7 (Some (js ''fetch failed''))) \<rparr>)
     = Inl (Thrown 7 (Some (js ''fetch failed''))) \<and>
   streamContextualInfoWithAI (Some (js ''key''))
          \<lparr> chunks = [groundedResponse (Some (js ''ab'')) [webChunk (js ''https://y'') None]],
            failure = Some (Thrown 7 (Some (js ''fetch failed''))) \<rparr>
     = ([Chunk (js ''ab''),
         Sources [\<lparr> src_uri = js ''https://y'', src_title = js ''https://y'' \<rparr>]],
        Inl (Thrown 7 (Some (js ''fetch failed'')))) \<and>
   parseTaskStringWithAI (Some (js ''key'')) (exampleRuntime [])
          (Inl (Thrown 7 (Some (js ''fetch failed''))))
     = Inl (NewError (js ''Failed to parse task with AI. Details: fetch failed''))"
proof -
  have key: "configured (Some (js ''key''))" by (simp add: configured_def js_def)
  note inst = transport_errors[OF key, of "[]" "[]" "[textOnly (js ''ab'')]"
      "Thrown 7 (Some (js ''fetch failed''))" "exampleRuntime []" 7 "Some (js ''fetch failed'')"]
  note inst' = transport_errors[OF key, of "[]" "[]"
      "[groundedResponse (Some (js ''ab'')) [webChunk (js ''https://y'') None]]"
      "Thrown 7 (Some (js ''fetch failed''))" "exampleRuntime []" 7 "Some (js ''fetch failed'')"]
  have a: "snd (enhanceTaskWithAIStream (Some (js ''key'')) [] []
          \<lparr> chunks = [textOnly (js ''ab'')], failure = Some (Thrown 7 (Some (js ''fetch failed''))) \<rparr>)
     = Inl (Thrown 7 (Some (js ''fetch failed'')))"
    using inst by (elim conjE)
  have b: "streamContextualInfoWithAI (Some (js ''key''))
          \<lparr> chunks = [groundedResponse (Some (js ''ab'')) [webChunk (js ''https://y'') None]],
            failure = Some (Thrown 7 (Some (js ''fetch failed''))) \<rparr>
     = ([Chunk (js ''ab''),
         Sources [\<lparr> src_uri = js ''https://y'', src_title = js ''https://y'' \<rparr>]],
        Inl (Thrown 7 (Some (js ''fetch failed''))))"
    using inst'
    by (simp add: sourcesOnError_def groundingChunksOf_def groundedResponse_def extractSources_def
        keepsWeb_def toContextualSource_def Let_def webChunk_def startsWith_def js_def)
  have c: "parseTaskStringWithAI (Some (js ''key'')) (exampleRuntime [])
          (Inl (Thrown 7 (Some (js ''fetch failed''))))
     = Inl (NewError (js ''Failed to parse task with AI. Details: fetch failed''))"
    using inst by (simp add: js_def)
  from key a b c show ?thesis by blast
qed

theorem transport_errors_wrapped_counterexample:
  "parseTaskStringWithAI (Some (js ''key'')) (exampleRuntime [])
          (Inl (Thrown 7 (Some (js ''fetch failed''))))
     = Inl (NewError (js ''Failed to parse task with AI. Details: fetch failed'')) \<and>
   suggestTagsWithAI (Some (js ''key'')) (exampleRuntime [])
          (Inl (Thrown 7 (Some (js ''fetch failed''))))
     = Inl (NewError (js ''Failed to suggest tags with AI.''))"
  by (simp add: parseTaskStringWithAI_def suggestTagsWithAI_def configured_def parsedResponse_def
      parseFailureMessage_def suggestFailure_def js_def)

text \<open>
  C9. With the API key configured and a response received, \<open>suggestTagsWithAI\<close> returns
  the empty list when the response text parses to a value that is not an array of strings.
  It raises exactly when the response carries no text (reading \<open>response.text.trim()\<close>
  fails inside the \<open>try\<close> block and \<open>JSON.parse\<close> is never called) or \<open>JSON.parse\<close>
  raises on the stripped text, and what it raises is its fixed error.
\<close>

theorem suggest_non_array:
  assumes "configured API_KEY"
  shows "(\<forall>t v. resp_text response = Some t \<and>
                JSON_parse rt (stripFence (trim t)) = Inr v \<and>
                \<not> (\<exists>xs. v = JArray xs \<and> list_all isString xs) \<longrightarrow>
                suggestTagsWithAI API_KEY rt (Inr response) = Inr []) \<and>
         (isl (suggestTagsWithAI API_KEY rt (Inr response)) \<longleftrightarrow>
            (case resp_text response of
               None \<Rightarrow> True
             | Some t \<Rightarrow> isl (JSON_parse rt (stripFence (trim t))))) \<and>
         (isl (suggestTagsWithAI API_KEY rt (Inr response)) \<longrightarrow>
            suggestTagsWithAI API_KEY rt (Inr response) = Inl suggestFailure) \<and>
         (resp_text response = None \<longrightarrow>
            suggestTagsWithAI API_KEY rt (Inr response) = Inl suggestFailure)"
proof (cases "resp_text response")
  case None
  with assms have "suggestTagsWithAI API_KEY rt (Inr response) = Inl suggestFailure"
    by (simp add: suggestTagsWithAI_def parsedResponse_def)
  with None show ?thesis by simp
next
  case (Some t)
  note run = suggest_result[OF assms Some, of rt]
  have empty: "\<forall>t' v. resp_text response = Some t' \<and>
                JSON_parse rt (stripFence (trim t')) = Inr v \<and>
                \<not> (\<exists>xs. v = JArray xs \<and> list_all isString xs) \<longrightarrow>
                suggestTagsWithAI API_KEY rt (Inr response) = Inr []"
  proof (intro allI impI)
    fix t' v
    assume a: "resp_text response = Some t' \<and>
                JSON_parse rt (stripFence (trim t')) = Inr v \<and>
                \<not> (\<exists>xs. v = JArray xs \<and> list_all isString xs)"
    with Some have same: "t' = t" by simp
    from a have "tagsOfParsed rt v = []"
      by (cases v) (simp_all add: tagsOfParsed_def)
    with a same show "suggestTagsWithAI API_KEY rt (Inr response) = Inr []"
      by (simp add: run)
  qed
  have raises: "isl (suggestTagsWithAI API_KEY rt (Inr response))
                  \<longleftrightarrow> isl (JSON_parse rt (stripFence (trim t)))"
    by (simp add: run split: sum.splits)
  have fixed: "isl (suggestTagsWithAI API_KEY rt (Inr response)) \<longrightarrow>
                 suggestTagsWithAI API_KEY rt (Inr response) = Inl suggestFailure"
    by (cases "JSON_parse rt (stripFence (trim t))") (simp_all add: run)
  from empty raises fixed Some show ?thesis by simp
qed

theorem suggest_non_array_witness:
  "configured (Some (js ''key'')) \<and>
   resp_text (textOnly (js ''{'' @ quoted (js ''tags'') @ js '':[1]}''))
     = Some (js ''{'' @ quoted (js ''tags'') @ js '':[1]}'') \<and>
   suggestTagsWithAI (Some (js ''key''))
     (exampleRuntime
        [(js ''{'' @ quoted (js ''tags'') @ js '':[1]}'',
          JObject [(js ''tags'', JArray [JNumber (Finite 1)])])])
     (Inr (textOnly (js ''{'' @ quoted (js ''tags'') @ js '':[1]}'')))
   = Inr [] \<and>
   suggestTagsWithAI (Some (js ''key'')) (exampleRuntime [])
     (Inr (textOnly (js ''{'' @ quoted (js ''tags'') @ js '':[1]}'')))
   = Inl suggestFailure \<and>
   resp_text \<lparr> resp_text = None, candidates = None \<rparr> = None \<and>
   suggestTagsWithAI (Some (js ''key'')) (exampleRuntime [])
     (Inr \<lparr> resp_text = None, candidates = None \<rparr>)
   = Inl suggestFailure"
proof -
  let ?t = "js ''{'' @ quoted (js ''tags'') @ js '':[1]}''"
  let ?v = "JObject [(js ''tags'', JArray [JNumber (Finite 1)])]"
  let ?rt = "exampleRuntime [(?t, ?v)]"
  let ?blank = "\<lparr> resp_text = None, candidates = None \<rparr>"
  have key: "configured (Some (js ''key''))" by (simp add: configured_def js_def)
  have rtext: "resp_text (textOnly ?t) = Some ?t" by (simp add: textOnly_def)
  have notext: "resp_text ?blank = None" by simp
  have strip: "stripFence (trim ?t) = ?t"
    by (simp add: stripFence_def fenceGroup2_def fence_def backtick_def quoted_def dquote_def
        trim_def trimStart_def trimEnd_def isWhiteSpace_def js_def Let_def)
  have parse: "JSON_parse ?rt (stripFence (trim ?t)) = Inr ?v"
    unfolding strip by (simp add: exampleRuntime_def parseTable_def)
  have fail: "isl (JSON_parse (exampleRuntime []) (stripFence (trim ?t)))"
    by (simp add: exampleRuntime_def parseTable_def)
  have one: "suggestTagsWithAI (Some (js ''key'')) ?rt (Inr (textOnly ?t)) = Inr []"
    using suggest_non_array[OF key, of "textOnly ?t" ?rt] rtext parse by simp
  have "isl (suggestTagsWithAI (Some (js ''key'')) (exampleRuntime []) (Inr (textOnly ?t)))"
    using suggest_non_array[OF key, of "textOnly ?t" "exampleRuntime []"] rtext fail by simp
  then have two: "suggestTagsWithAI (Some (js ''key'')) (exampleRuntime []) (Inr (textOnly ?t))
                    = Inl suggestFailure"
    using suggest_non_array[OF key, of "textOnly ?t" "exampleRuntime []"] by blast
  have three: "suggestTagsWithAI (Some (js ''key'')) (exampleRuntime []) (Inr ?blank)
                 = Inl suggestFailure"
    using suggest_non_array[OF key, of ?blank "exampleRuntime []"] notext by blast
  from key rtext one two notext three show ?thesis by blast
qed

theorem suggest_no_text_counterexample:
  "suggestTagsWithAI (Some (js ''key'')) (acceptingRuntime (JArray []))
     (Inr \<lparr> resp_text = None, candidates = None \<rparr>)
   = Inl (NewError (js ''Failed to suggest tags with AI.'')) \<and>
   suggestTagsWithAI (Some (js ''key'')) (exampleRuntime [])
     (Inr \<lparr> resp_text = None, candidates = None \<rparr>)
   = Inl (NewError (js ''Failed to suggest tags with AI.''))"
  by (simp add: suggestTagsWithAI_def configured_def parsedResponse_def suggestFailure_def
      acceptingRuntime_def exampleRuntime_def js_def)

end
